theory Spec2Isabelle
  imports Main "HOL-Library.Char_ord" "HOL-Library.List_Lexorder"
begin

section \<open>Python values shared by the three tools\<close>

text \<open>
  The three scripts of \<^verbatim>\<open>Database tools/\<close> are embedded as pure functions over an explicit
  database, file system and output log. Every exception a script can meet is a value of
  \<open>pyexn\<close>; a function that may raise returns \<open>pyexn + 'a\<close> with \<open>Inl\<close> the exception.
\<close>

datatype pyexn =
    ValueError
  | IndexError
  | AttributeError
  | OSError
  | SqliteError
  | JSONDecodeError
  | SystemExit string

subsection \<open>Paths (\<^verbatim>\<open>pathlib.PurePosixPath\<close>)\<close>

text \<open>
  A path is its \<^verbatim>\<open>parts\<close> tuple: the components in order, with the anchor \<^verbatim>\<open>"/"\<close> as first
  part of an absolute path. Components are non-empty, contain no slash and are never
  \<^verbatim>\<open>"."\<close>, as pathlib normalises them away. Windows paths (drives, case folding) are not
  modelled.
\<close>

type_synonym path = "string list"

definition is_absolute :: "path \<Rightarrow> bool" where
  "is_absolute p = (case p of [] \<Rightarrow> False | a # _ \<Rightarrow> a = ''/'' \<or> a = ''//'')"

text \<open>
  \<^verbatim>\<open>self.relative_to(other)\<close>: the parts of \<open>other\<close> (anchor included) must be a prefix of
  the parts of \<open>self\<close>; relative to the empty path only a relative path is accepted.
  Otherwise \<^verbatim>\<open>ValueError\<close>.
\<close>

definition relative_to :: "path \<Rightarrow> path \<Rightarrow> pyexn + path" where
  "relative_to self other =
     (if other = [] then (if is_absolute self then Inl ValueError else Inr self)
      else if take (length other) self = other then Inr (drop (length other) self)
      else Inl ValueError)"

text \<open>\<^verbatim>\<open>name.rfind('.')\<close>: the index of the last dot, if there is one.\<close>

fun rfind_dot :: "string \<Rightarrow> nat option" where
  "rfind_dot [] = None"
| "rfind_dot (c # cs) =
     (case rfind_dot cs of
        Some i \<Rightarrow> Some (Suc i)
      | None \<Rightarrow> (if c = CHR ''.'' then Some 0 else None))"

text \<open>
  \<^verbatim>\<open>Path(name).stem\<close> for a single component: the name without its last suffix. A
  leading dot and a trailing dot do not start a suffix (\<^verbatim>\<open>0 < i < len(name) - 1\<close>).
\<close>

definition stem :: "string \<Rightarrow> string" where
  "stem name =
     (case rfind_dot name of
        None \<Rightarrow> name
      | Some i \<Rightarrow> (if 0 < i \<and> Suc i < length name then take i name else name))"

text \<open>\<^verbatim>\<open>parts.insert(i, x)\<close> on a Python list.\<close>

definition list_insert :: "nat \<Rightarrow> 'a \<Rightarrow> 'a list \<Rightarrow> 'a list" where
  "list_insert i x xs = take i xs @ x # drop i xs"

text \<open>\<^verbatim>\<open>str(path)\<close>: the components joined by slashes, \<^verbatim>\<open>"."\<close> for the empty path.\<close>

fun join_slash :: "string list \<Rightarrow> string" where
  "join_slash [] = []"
| "join_slash [c] = c"
| "join_slash (c # cs) = c @ ''/'' @ join_slash cs"

definition path_str :: "path \<Rightarrow> string" where
  "path_str p =
     (case p of
        [] \<Rightarrow> ''.''
      | a # cs \<Rightarrow> (if a = ''/'' \<or> a = ''//'' then a @ join_slash cs else join_slash p))"

section \<open>The reindex tool: \<^verbatim>\<open>Restore_Images_DB_v2.1.py\<close>\<close>

subsection \<open>\<^verbatim>\<open>get_thumbnail_path\<close>\<close>

text \<open>
  \<^verbatim>\<open>rel = image_path.relative_to(outputs_root)\<close> re-raised as \<^verbatim>\<open>ValueError\<close>; then
  \<^verbatim>\<open>parts.insert(1, "thumbnails")\<close> when \<^verbatim>\<open>parts and parts[0] == "images"\<close>;
  \<^verbatim>\<open>parts[-1] = Path(parts[-1]).stem + ".webp"\<close>, an \<^verbatim>\<open>IndexError\<close> on the empty list;
  and \<^verbatim>\<open>outputs_root / Path(*parts)\<close>, which appends the relative parts.
\<close>

definition get_thumbnail_path :: "path \<Rightarrow> path \<Rightarrow> pyexn + path" where
  "get_thumbnail_path outputs_root image_path =
     (case relative_to image_path outputs_root of
        Inl _ \<Rightarrow> Inl ValueError
      | Inr rel \<Rightarrow>
          (let parts = (if rel \<noteq> [] \<and> hd rel = ''images''
                        then list_insert 1 ''thumbnails'' rel else rel)
           in if parts = [] then Inl IndexError
              else Inr (outputs_root @
                        parts[length parts - 1 := stem (last parts) @ ''.webp''])))"

subsection \<open>Dates and times (\<^verbatim>\<open>datetime\<close>)\<close>

text \<open>
  A \<^verbatim>\<open>datetime\<close> value by its fields. The time zone a \<^verbatim>\<open>%z\<close> directive attaches is left
  out: the only consumer, \<^verbatim>\<open>strftime("%Y-%m-%d %H:%M:%S.%f")\<close>, prints the fields as they
  were parsed and never converts between zones.
\<close>

record datetime =
  year :: nat
  month :: nat
  day :: nat
  hour :: nat
  minute :: nat
  second :: nat
  microsecond :: nat

definition is_digit :: "char \<Rightarrow> bool" where
  "is_digit c = (c \<in> set ''0123456789'')"

text \<open>
  A character that \<^verbatim>\<open>\s\<close> matches in a \<^verbatim>\<open>str\<close> pattern, among the code points below 256:
  the blank, 0x09 to 0x0D, 0x1C to 0x1F, 0x85 and 0xA0.
\<close>

definition is_space :: "char \<Rightarrow> bool" where
  "is_space c =
     (c \<in> set [CHR '' '', CHR 0x09, CHR 0x0A, CHR 0x0B, CHR 0x0C, CHR 0x0D,
                CHR 0x1C, CHR 0x1D, CHR 0x1E, CHR 0x1F, CHR 0x85, CHR 0xA0])"

definition digit_val :: "char \<Rightarrow> nat" where
  "digit_val c = of_char c - 48"

definition digit_char :: "nat \<Rightarrow> char" where
  "digit_char d = ''0123456789'' ! d"

text \<open>\<^verbatim>\<open>int(s)\<close> on a string of decimal digits with optional blanks in front.\<close>

definition py_int :: "string \<Rightarrow> nat" where
  "py_int s = foldl (\<lambda>a c. 10 * a + digit_val c) 0 (dropWhile is_space s)"

fun dec :: "nat \<Rightarrow> string" where
  "dec n = (if n < 10 then [digit_char n] else dec (n div 10) @ [digit_char (n mod 10)])"

text \<open>A number printed in at least \<open>w\<close> digits, zero-padded on the left (\<^verbatim>\<open>%02d\<close>, \<^verbatim>\<open>%06d\<close>).\<close>

definition zpad :: "nat \<Rightarrow> nat \<Rightarrow> string" where
  "zpad w n = replicate (w - length (dec n)) (CHR ''0'') @ dec n"

text \<open>
  \<^verbatim>\<open>dt.strftime("%Y-%m-%d %H:%M:%S.%f")\<close>. The year is printed as the C library of Linux
  prints it, without padding (years below 1000 come out in fewer than four digits; the
  C libraries that pad them differ there).
\<close>

definition strftime :: "datetime \<Rightarrow> string" where
  "strftime dt =
     dec (year dt) @ ''-'' @ zpad 2 (month dt) @ ''-'' @ zpad 2 (day dt) @ '' '' @
     zpad 2 (hour dt) @ '':'' @ zpad 2 (minute dt) @ '':'' @ zpad 2 (second dt) @ ''.'' @
     zpad 6 (microsecond dt)"

subsection \<open>\<^verbatim>\<open>datetime.strptime\<close>\<close>

text \<open>
  The library function as CPython 3.8 to 3.12 implements it (\<^verbatim>\<open>_strptime.py\<close>), for the
  directives the tool's formats use. The format becomes a regular expression, matched
  by a backtracking matcher under \<^verbatim>\<open>re.IGNORECASE\<close>; the match must cover the whole
  string; the captured groups must then form a valid \<^verbatim>\<open>datetime\<close>. A matcher here
  returns every match of a prefix with the rest of the string, in the order in which the
  backtracking matcher would try them, so the head of the list is the match \<^verbatim>\<open>re.match\<close>
  returns. A \<open>char\<close> is a code point below 256; strings with other code points are not
  modelled.
\<close>

datatype directive = Dir char | Lit char | Ws

function parse_format :: "string \<Rightarrow> directive list" where
  "parse_format [] = []"
| "parse_format (c # cs) =
     (if c = CHR ''%'' then (case cs of [] \<Rightarrow> [Dir c] | d # ds \<Rightarrow> Dir d # parse_format ds)
      else if is_space c then Ws # parse_format (dropWhile is_space cs)
      else Lit c # parse_format cs)"
  by pat_completeness auto
termination
  by (relation "measure length") (auto simp: le_imp_less_Suc length_dropWhile_le)

definition ascii_lower :: "char \<Rightarrow> char" where
  "ascii_lower c =
     (case map_of (zip ''ABCDEFGHIJKLMNOPQRSTUVWXYZ'' ''abcdefghijklmnopqrstuvwxyz'') c of
        Some l \<Rightarrow> l
      | None \<Rightarrow> c)"

type_synonym rx = "string \<Rightarrow> (string \<times> string) list"

text \<open>One alternative: a fixed sequence of character classes.\<close>

definition rx_seq :: "(char \<Rightarrow> bool) list \<Rightarrow> rx" where
  "rx_seq ps s =
     (if length ps \<le> length s \<and> list_all2 (\<lambda>p c. p c) ps (take (length ps) s)
      then [(take (length ps) s, drop (length ps) s)] else [])"

definition rx_alts :: "(char \<Rightarrow> bool) list list \<Rightarrow> rx" where
  "rx_alts alts s = concat (map (\<lambda>ps. rx_seq ps s) alts)"

definition one_of :: "string \<Rightarrow> char \<Rightarrow> bool" where
  "one_of cs c = (c \<in> set cs)"

text \<open>
  The groups of \<^verbatim>\<open>TimeRE\<close>:
  \<^verbatim>\<open>Y: \d\d\d\d    m: 1[0-2]|0[1-9]|[1-9]    d: 3[0-1]|[1-2]\d|0[1-9]|[1-9]| [1-9]\<close>
  \<^verbatim>\<open>H: 2[0-3]|[0-1]\d|\d    M: [0-5]\d|\d    S: 6[0-1]|[0-5]\d|\d    f: [0-9]{1,6}\<close>
  \<^verbatim>\<open>z: [+-]\d\d:?[0-5]\d(:?[0-5]\d(\.\d{1,6})?)?|(?-i:Z)\<close>
\<close>

definition z_alts :: "(char \<Rightarrow> bool) list list" where
  "z_alts =
     concat (map (\<lambda>c1.
       (let base = [one_of ''+-'', is_digit, is_digit] @ c1 @ [one_of ''012345'', is_digit]
        in concat (map (\<lambda>c2.
             map (\<lambda>fr. base @ c2 @ [one_of ''012345'', is_digit] @ fr)
               (map (\<lambda>n. one_of ''.'' # replicate n is_digit) [6, 5, 4, 3, 2, 1] @ [[]]))
             [[one_of '':''], []])
           @ [base]))
       [[one_of '':''], []])
     @ [[one_of ''Z'']]"

definition rx_directive :: "directive \<Rightarrow> rx" where
  "rx_directive d s =
     (case d of
        Lit l \<Rightarrow> rx_seq [\<lambda>c. ascii_lower c = ascii_lower l] s
      | Ws \<Rightarrow> map (\<lambda>k. (take k s, drop k s)) (rev [1 ..< Suc (length (takeWhile is_space s))])
      | Dir c \<Rightarrow>
          (if c = CHR ''Y'' then rx_alts [[is_digit, is_digit, is_digit, is_digit]] s
           else if c = CHR ''m'' then
             rx_alts [[one_of ''1'', one_of ''012''], [one_of ''0'', one_of ''123456789''],
                      [one_of ''123456789'']] s
           else if c = CHR ''d'' then
             rx_alts [[one_of ''3'', one_of ''01''], [one_of ''12'', is_digit],
                      [one_of ''0'', one_of ''123456789''], [one_of ''123456789''],
                      [one_of '' '', one_of ''123456789'']] s
           else if c = CHR ''H'' then
             rx_alts [[one_of ''2'', one_of ''0123''], [one_of ''01'', is_digit], [is_digit]] s
           else if c = CHR ''M'' then
             rx_alts [[one_of ''012345'', is_digit], [is_digit]] s
           else if c = CHR ''S'' then
             rx_alts [[one_of ''6'', one_of ''01''], [one_of ''012345'', is_digit], [is_digit]] s
           else if c = CHR ''f'' then
             rx_alts (map (\<lambda>n. replicate n is_digit) [6, 5, 4, 3, 2, 1]) s
           else if c = CHR ''z'' then rx_alts z_alts s
           else []))"

text \<open>
  The whole expression: the directives in sequence, the named groups collected as pairs
  of directive letter and matched text.
\<close>

fun rx_match :: "directive list \<Rightarrow> string \<Rightarrow> ((char \<times> string) list \<times> string) list" where
  "rx_match [] s = [([], s)]"
| "rx_match (d # ds) s =
     concat (map (\<lambda>(txt, rest).
       map (\<lambda>(groups, r). ((case d of Dir c \<Rightarrow> [(c, txt)] | _ \<Rightarrow> []) @ groups, r))
         (rx_match ds rest))
       (rx_directive d s))"

definition is_leap :: "nat \<Rightarrow> bool" where
  "is_leap y = (y mod 4 = 0 \<and> (y mod 100 \<noteq> 0 \<or> y mod 400 = 0))"

definition days_in_month :: "nat \<Rightarrow> nat \<Rightarrow> nat" where
  "days_in_month y m =
     (if m = 2 then (if is_leap y then 29 else 28)
      else if m \<in> set [4, 6, 9, 11] then 30 else 31)"

text \<open>
  The \<^verbatim>\<open>z\<close> group after the match: \<^verbatim>\<open>Z\<close> is UTC; otherwise the colons are removed, an
  inconsistent use of colons is a \<^verbatim>\<open>ValueError\<close> (raised by the parser or by \<^verbatim>\<open>int\<close>), and
  \<^verbatim>\<open>timezone\<close> refuses an offset of 24 hours or more.
\<close>

definition z_valid :: "string \<Rightarrow> bool" where
  "z_valid z =
     (if z = ''Z'' then True
      else if z ! 3 = CHR '':'' then
        (let z1 = take 3 z @ drop 4 z
         in (if 5 < length z1 then z1 ! 5 = CHR '':'' else True) \<and> py_int (take 2 (drop 1 z1)) < 24)
      else list_all is_digit (take 2 (drop 5 z)) \<and> py_int (take 2 (drop 1 z)) < 24)"

definition group_or :: "(char \<times> string) list \<Rightarrow> char \<Rightarrow> nat \<Rightarrow> nat" where
  "group_or found c dflt = (case map_of found c of Some s \<Rightarrow> py_int s | None \<Rightarrow> dflt)"

text \<open>
  The groups as a \<^verbatim>\<open>datetime\<close>: fields that were not parsed default to 1900-01-01
  00:00:00, the fraction is padded with zeros on the right to six digits, and the
  constructor raises for year 0, a day beyond the month's end and second 60 or 61.
\<close>

definition datetime_of_groups :: "(char \<times> string) list \<Rightarrow> datetime option" where
  "datetime_of_groups found =
     (let y = group_or found (CHR ''Y'') 1900;
          m = group_or found (CHR ''m'') 1;
          d = group_or found (CHR ''d'') 1;
          S = group_or found (CHR ''S'') 0;
          f = (case map_of found (CHR ''f'') of
                 Some s \<Rightarrow> py_int (s @ replicate (6 - length s) (CHR ''0''))
               | None \<Rightarrow> 0);
          tz_ok = (case map_of found (CHR ''z'') of Some z \<Rightarrow> z_valid z | None \<Rightarrow> True)
      in if tz_ok \<and> 1 \<le> y \<and> d \<le> days_in_month y m \<and> S \<le> 59
         then Some \<lparr>year = y, month = m, day = d,
                    hour = group_or found (CHR ''H'') 0,
                    minute = group_or found (CHR ''M'') 0,
                    second = S, microsecond = f\<rparr>
         else None)"

text \<open>
  \<^verbatim>\<open>datetime.strptime(data_string, format)\<close>; \<open>None\<close> stands for the \<^verbatim>\<open>ValueError\<close> it
  raises (no match, unconverted data remaining, or an invalid date).
\<close>

definition strptime :: "string \<Rightarrow> string \<Rightarrow> datetime option" where
  "strptime data_string format =
     (case rx_match (parse_format format) data_string of
        [] \<Rightarrow> None
      | (found, rest) # _ \<Rightarrow> (if rest \<noteq> [] then None else datetime_of_groups found))"

subsection \<open>Metadata and \<^verbatim>\<open>detect_created_at\<close>\<close>

text \<open>
  What \<^verbatim>\<open>json.loads\<close> returns. An object holds the items of the resulting \<^verbatim>\<open>dict\<close>, its
  keys distinct. Of a number only whether it is zero matters here, so floats are not
  told apart from integers.
\<close>

datatype json =
    JNull
  | JBool bool
  | JNum int
  | JStr string
  | JArr "json list"
  | JObj "(string \<times> json) list"

text \<open>
  Python's truth value of \<^verbatim>\<open>meta_json\<close>, which is \<^verbatim>\<open>None\<close> (here \<open>None\<close> or \<open>Some JNull\<close>)
  or a decoded JSON value.
\<close>

fun truthy :: "json option \<Rightarrow> bool" where
  "truthy None = False"
| "truthy (Some JNull) = False"
| "truthy (Some (JBool b)) = b"
| "truthy (Some (JNum n)) = (n \<noteq> 0)"
| "truthy (Some (JStr s)) = (s \<noteq> [])"
| "truthy (Some (JArr xs)) = (xs \<noteq> [])"
| "truthy (Some (JObj kvs)) = (kvs \<noteq> [])"

definition created_keys :: "string list" where
  "created_keys = [''created'', ''created_at'', ''timestamp'', ''time'']"

definition created_formats :: "string list" where
  "created_formats = [''%Y-%m-%dT%H:%M:%S.%fZ'', ''%Y-%m-%dT%H:%M:%S%z'', ''%Y-%m-%d %H:%M:%S'']"

text \<open>
  The inner loop \<^verbatim>\<open>for fmt in (...)\<close>: \<^verbatim>\<open>break\<close> on the first format that parses,
  \<^verbatim>\<open>continue\<close> on an exception. \<open>dt\<close> is the variable of the same name.
\<close>

fun formats_loop :: "datetime option \<Rightarrow> string \<Rightarrow> string list \<Rightarrow> datetime option" where
  "formats_loop dt val [] = dt"
| "formats_loop dt val (fmt # fmts) =
     (case strptime val fmt of
        Some parsed \<Rightarrow> Some parsed
      | None \<Rightarrow> formats_loop dt val fmts)"

text \<open>
  The outer loop \<^verbatim>\<open>for key in (...)\<close>: \<^verbatim>\<open>val = meta_json.get(key)\<close>, the inner loop when
  \<^verbatim>\<open>isinstance(val, str)\<close>, and \<^verbatim>\<open>if dt: break\<close> (a \<^verbatim>\<open>datetime\<close> is always true).
\<close>

fun keys_loop :: "datetime option \<Rightarrow> (string \<times> json) list \<Rightarrow> string list \<Rightarrow> datetime option" where
  "keys_loop dt d [] = dt"
| "keys_loop dt d (key # keys) =
     (let dt' = (case map_of d key of
                   Some (JStr val) \<Rightarrow> formats_loop dt val created_formats
                 | _ \<Rightarrow> dt)
      in if dt' \<noteq> None then dt' else keys_loop dt' d keys)"

text \<open>
  \<^verbatim>\<open>detect_created_at(meta_json, path)\<close>; \<open>mtime\<close> is
  \<^verbatim>\<open>datetime.fromtimestamp(path.stat().st_mtime)\<close>. A true \<^verbatim>\<open>meta_json\<close> that is not a
  \<^verbatim>\<open>dict\<close> has no \<^verbatim>\<open>get\<close>: the call raises \<^verbatim>\<open>AttributeError\<close>.
\<close>

definition detect_created_at :: "json option \<Rightarrow> datetime \<Rightarrow> pyexn + string" where
  "detect_created_at meta_json mtime =
     (if truthy meta_json then
        (case meta_json of
           Some (JObj d) \<Rightarrow>
             Inr (strftime (case keys_loop None d created_keys of
                              Some dt \<Rightarrow> dt
                            | None \<Rightarrow> mtime))
         | _ \<Rightarrow> Inl AttributeError)
      else Inr (strftime mtime))"




section \<open>The catalog\<close>

text \<open>
  The three tables of the SQLite file, each a list of rows in the order a table scan
  returns them. A row of \<^verbatim>\<open>images\<close> has the columns the tools name; \<open>other_columns\<close> stands
  for the columns they never name. The schema itself is not part of the repository.
\<close>

record image_row =
  image_name :: string
  image_origin :: string
  image_category :: string
  width :: nat
  height :: nat
  metadata :: "string option"
  is_intermediate :: nat
  created_at :: string
  updated_at :: string
  has_workflow :: nat
  other_columns :: "(string \<times> string) list"

record database =
  images :: "image_row list"
  boards :: "(string \<times> string) list"
  board_images :: "(string \<times> string) list"

text \<open>SQLite's \<^verbatim>\<open>LOWER\<close>: the ASCII letters folded, every other byte kept.\<close>

definition sql_lower :: "string \<Rightarrow> string" where
  "sql_lower s = map ascii_lower s"

section \<open>The reclassification tools\<close>

text \<open>
  \<^verbatim>\<open>Convert_Board_to_Assets_v1.0.py\<close> and \<^verbatim>\<open>Convert_Assets_to_Board_v1.0.py\<close> are the same
  program up to the two target values and the wording of their messages. The lines they
  print:
\<close>

datatype conv_line =
    InfoUsingBoard string string
  | NoImagesFound
  | InfoFound nat
  | DryHeader
  | DryItem string
  | InfoUpdating nat
  | OkUpdated nat
  | DryWouldUpdate nat
  | UpdatedImages nat

record conv_args =
  board_name :: string
  conv_dry_run :: bool
  conv_verbose :: bool

text \<open>
  \<^verbatim>\<open>SELECT board_id FROM boards WHERE LOWER(board_name) = LOWER(?)\<close> and \<^verbatim>\<open>fetchone()\<close>: the
  first matching row, \<^verbatim>\<open>SystemExit\<close> with the tool's message when there is none.
\<close>

definition select_board_lower :: "database \<Rightarrow> string \<Rightarrow> (string \<times> string) list" where
  "select_board_lower db name = filter (\<lambda>(bid, bname). sql_lower bname = sql_lower name) (boards db)"

definition get_board_id_by_name_assets :: "database \<Rightarrow> string \<Rightarrow> pyexn + string" where
  "get_board_id_by_name_assets db name =
     (case select_board_lower db name of
        [] \<Rightarrow> Inl (SystemExit (''Board with name '' @ [CHR 0x27] @ name @ [CHR 0x27] @ '' not found.''))
      | (bid, _) # _ \<Rightarrow> Inr bid)"

definition get_board_id_by_name_general :: "database \<Rightarrow> string \<Rightarrow> pyexn + string" where
  "get_board_id_by_name_general db name =
     (case select_board_lower db name of
        [] \<Rightarrow> Inl (SystemExit (''Board with name '' @ [CHR 0x27] @ name @ [CHR 0x27] @
                                '' not found (case-insensitive).''))
      | (bid, _) # _ \<Rightarrow> Inr bid)"

text \<open>\<^verbatim>\<open>SELECT image_name FROM board_images WHERE board_id = ?\<close> and \<^verbatim>\<open>fetchall()\<close>.\<close>

definition get_images_for_board :: "database \<Rightarrow> string \<Rightarrow> string list" where
  "get_images_for_board db bid = map snd (filter (\<lambda>(b, n). b = bid) (board_images db))"

text \<open>
  One execution of
  \<^verbatim>\<open>UPDATE images SET image_category = c, image_origin = o WHERE image_name = ?\<close>:
  the new table and the number of rows the statement changed.
\<close>

definition update_images :: "string \<Rightarrow> string \<Rightarrow> string \<Rightarrow> image_row list \<Rightarrow> image_row list \<times> nat" where
  "update_images category origin name rows =
     (map (\<lambda>r. if image_name r = name
                then r\<lparr>image_category := category, image_origin := origin\<rparr> else r) rows,
      length (filter (\<lambda>r. image_name r = name) rows))"

text \<open>
  \<^verbatim>\<open>cur.executemany(..., [(name,) for name in image_names])\<close>: one execution for each
  name in turn; \<^verbatim>\<open>cur.rowcount\<close> is the sum of the rows changed.
\<close>

fun executemany_update ::
  "string \<Rightarrow> string \<Rightarrow> string list \<Rightarrow> image_row list \<times> nat \<Rightarrow> image_row list \<times> nat" where
  "executemany_update category origin [] acc = acc"
| "executemany_update category origin (name # names) (rows, rowcount) =
     (case update_images category origin name rows of
        (rows', k) \<Rightarrow> executemany_update category origin names (rows', rowcount + k))"

text \<open>
  \<^verbatim>\<open>mark_images_as_assets\<close> and \<^verbatim>\<open>mark_images_as_general\<close>: the database after the call, the
  returned count and the lines printed.
\<close>

definition mark_images ::
  "string \<Rightarrow> string \<Rightarrow> database \<Rightarrow> string list \<Rightarrow> bool \<Rightarrow> bool \<Rightarrow> database \<times> nat \<times> conv_line list" where
  "mark_images category origin db image_names dry_run verbose =
     (if image_names = [] then (db, 0, [])
      else if dry_run then (db, length image_names, DryHeader # map DryItem image_names)
      else
        (case executemany_update category origin image_names (images db, 0) of
           (rows', rowcount) \<Rightarrow>
             (db\<lparr>images := rows'\<rparr>, rowcount,
              (if verbose then [InfoUpdating (length image_names)] else []) @
              (if verbose then [OkUpdated rowcount] else []))))"

definition mark_images_as_assets ::
  "database \<Rightarrow> string list \<Rightarrow> bool \<Rightarrow> bool \<Rightarrow> database \<times> nat \<times> conv_line list" where
  "mark_images_as_assets = mark_images ''user'' ''external''"

definition mark_images_as_general ::
  "database \<Rightarrow> string list \<Rightarrow> bool \<Rightarrow> bool \<Rightarrow> database \<times> nat \<times> conv_line list" where
  "mark_images_as_general = mark_images ''general'' ''internal''"

text \<open>
  \<^verbatim>\<open>main()\<close> of either tool, over its board lookup and its marking function: the
  exception that ends the process (if any), the database left behind and the lines
  printed.
\<close>

definition conv_main ::
  "(database \<Rightarrow> string \<Rightarrow> pyexn + string) \<Rightarrow>
   (database \<Rightarrow> string list \<Rightarrow> bool \<Rightarrow> bool \<Rightarrow> database \<times> nat \<times> conv_line list) \<Rightarrow>
   conv_args \<Rightarrow> database \<Rightarrow> pyexn option \<times> database \<times> conv_line list" where
  "conv_main lookup mark args db =
     (case lookup db (board_name args) of
        Inl e \<Rightarrow> (Some e, db, [])
      | Inr board_id \<Rightarrow>
          (let out1 = (if conv_verbose args then [InfoUsingBoard (board_name args) board_id] else []);
               image_names = get_images_for_board db board_id
           in if image_names = [] then (None, db, out1 @ [NoImagesFound])
              else
                (let out2 = out1 @ (if conv_verbose args then [InfoFound (length image_names)] else [])
                 in case mark db image_names (conv_dry_run args) (conv_verbose args) of
                      (db', updated, out3) \<Rightarrow>
                        (None, db', out2 @ out3 @
                           [if conv_dry_run args then DryWouldUpdate updated
                            else UpdatedImages updated]))))"

definition main_assets :: "conv_args \<Rightarrow> database \<Rightarrow> pyexn option \<times> database \<times> conv_line list" where
  "main_assets = conv_main get_board_id_by_name_assets mark_images_as_assets"

definition main_general :: "conv_args \<Rightarrow> database \<Rightarrow> pyexn option \<times> database \<times> conv_line list" where
  "main_general = conv_main get_board_id_by_name_general mark_images_as_general"

text \<open>
  The exit status of the process: 0 when \<^verbatim>\<open>main\<close> returns, 1 when an exception ends it
  (\<^verbatim>\<open>SystemExit\<close> with a message prints the message and exits with 1).
\<close>

definition exit_status :: "pyexn option \<Rightarrow> nat" where
  "exit_status ex = (case ex of None \<Rightarrow> 0 | Some _ \<Rightarrow> 1)"

section \<open>The reindex tool: catalog, board and thumbnails\<close>

text \<open>
  An opened Pillow image: its size, the text chunks of \<^verbatim>\<open>img.info\<close>, and whether its
  pixel data can be decoded, resized and saved (\<^verbatim>\<open>convert\<close>, \<^verbatim>\<open>resize\<close> and \<^verbatim>\<open>save\<close> raise
  \<^verbatim>\<open>OSError\<close> on a truncated file). The pixels and the computed thumbnail size are not
  modelled.
\<close>

record pil_image =
  img_size :: "nat \<times> nat"
  info :: "(string \<times> string) list"
  renders :: bool

record args =
  outputs_root :: path
  dry_run :: bool
  verbose :: bool
  gen_thumbs :: bool

text \<open>
  What a run reads from outside the program: \<^verbatim>\<open>Image.open\<close> (\<open>None\<close> when it raises),
  the modification time of a file as a local \<^verbatim>\<open>datetime\<close>, \<^verbatim>\<open>json.loads\<close> (the decoded
  value, or the exception it raises: \<^verbatim>\<open>JSONDecodeError\<close>, or another one such as the plain
  \<^verbatim>\<open>ValueError\<close> for an integer of too many digits), today's date as \<^verbatim>\<open>%d-%m-%y\<close>, the identifier \<^verbatim>\<open>uuid4()\<close> draws,
  the paths \<^verbatim>\<open>images_root.glob("**/*.png")\<close> yields, and for which image names SQLite
  raises on the \<^verbatim>\<open>INSERT\<close> into \<^verbatim>\<open>images\<close> or into \<^verbatim>\<open>board_images\<close> (a locked or read-only
  database, a violated constraint).
\<close>

record env =
  image_open :: "path \<Rightarrow> pil_image option"
  mtime_of :: "path \<Rightarrow> datetime"
  json_loads :: "string \<Rightarrow> pyexn + json"
  today :: string
  uuid4 :: string
  glob_png :: "path list"
  insert_fails :: "string \<Rightarrow> bool"
  link_fails :: "string \<Rightarrow> bool"

text \<open>The file system: the paths that are files and the paths that are directories.\<close>

record filesys =
  files :: "path set"
  dirs :: "path set"

text \<open>The lines the reindex tool prints, one constructor for each \<^verbatim>\<open>print\<close>.\<close>

datatype event =
    DryInsert string string string nat nat
  | Inserted string
  | BoardReuse string string
  | DryBoardCreate string string
  | BoardCreated string string
  | DryLink string string
  | Linked string string
  | DryThumb path
  | ThumbCreated path
  | Skip string
  | ErrRead path
  | ErrInsert string
  | FileLine path string
  | Done

record world =
  catalog :: database
  disk :: filesys
  printed :: "event list"

text \<open>
  \<^verbatim>\<open>load_png_metadata(path)\<close>: the image, \<^verbatim>\<open>meta_raw\<close>, \<^verbatim>\<open>meta_json\<close>, \<^verbatim>\<open>graph_raw\<close> and
  \<^verbatim>\<open>has_graph\<close>. \<^verbatim>\<open>Image.open\<close> may raise; of what \<^verbatim>\<open>json.loads\<close> raises only
  \<^verbatim>\<open>JSONDecodeError\<close> is caught, and turned into \<^verbatim>\<open>meta_json = None\<close>.
\<close>

definition load_png_metadata ::
  "env \<Rightarrow> path \<Rightarrow> pyexn + (pil_image \<times> string option \<times> json option \<times> string option \<times> bool)" where
  "load_png_metadata e path =
     (case image_open e path of
        None \<Rightarrow> Inl OSError
      | Some img \<Rightarrow>
          (let meta_raw = map_of (info img) ''invokeai_metadata'';
               decoded = (case meta_raw of
                            Some raw \<Rightarrow>
                              (if raw \<noteq> [] then
                                 (case json_loads e raw of
                                    Inr v \<Rightarrow> Inr (Some v)
                                  | Inl JSONDecodeError \<Rightarrow> Inr None
                                  | Inl ex \<Rightarrow> Inl ex)
                               else Inr None)
                          | None \<Rightarrow> Inr None);
               graph_raw = map_of (info img) ''invokeai_graph'';
               has_graph = (graph_raw \<noteq> None)
           in case decoded of
                Inl ex \<Rightarrow> Inl ex
              | Inr meta_json \<Rightarrow> Inr (img, meta_raw, meta_json, graph_raw, has_graph)))"

text \<open>\<^verbatim>\<open>SELECT 1 FROM images WHERE image_name = ?\<close> has a row.\<close>

definition image_exists :: "database \<Rightarrow> string \<Rightarrow> bool" where
  "image_exists d name = list_ex (\<lambda>r. image_name r = name) (images d)"

text \<open>
  \<^verbatim>\<open>insert_image\<close>: in a dry run one line and nothing else; otherwise the \<^verbatim>\<open>INSERT\<close>, which
  appends the row or raises, and the commit.
\<close>

definition insert_image ::
  "env \<Rightarrow> database \<Rightarrow> string \<Rightarrow> pil_image \<Rightarrow> string option \<Rightarrow> bool \<Rightarrow> string \<Rightarrow> bool \<Rightarrow> bool \<Rightarrow>
   pyexn option \<times> database \<times> event list" where
  "insert_image e d name img meta_raw has_graph created dry verb =
     (let category = ''general'';
          origin = ''internal'';
          workflow = (if has_graph then 1 else 0);
          intermediate = 0
      in if dry then (None, d, [DryInsert name category origin intermediate workflow])
         else if insert_fails e name then (Some SqliteError, d, [])
         else (None,
               d\<lparr>images := images d @
                  [\<lparr>image_name = name, image_origin = origin, image_category = category,
                    width = fst (img_size img), height = snd (img_size img),
                    metadata = meta_raw, is_intermediate = intermediate,
                    created_at = created, updated_at = created,
                    has_workflow = workflow, other_columns = []\<rparr>]\<rparr>,
               if verb then [Inserted name] else []))"

text \<open>
  \<^verbatim>\<open>ensure_import_board\<close>: the board named \<^verbatim>\<open>Recovered dd-mm-yy\<close> is reused when a row of
  that name exists, and created under a fresh identifier otherwise (in a dry run only
  announced).
\<close>

definition ensure_import_board ::
  "env \<Rightarrow> database \<Rightarrow> bool \<Rightarrow> bool \<Rightarrow> string \<times> database \<times> event list" where
  "ensure_import_board e d dry verb =
     (let bname = ''Recovered '' @ today e
      in case List.find (\<lambda>(bid, n). n = bname) (boards d) of
           Some (bid, _) \<Rightarrow> (bid, d, if verb then [BoardReuse bname bid] else [])
         | None \<Rightarrow>
             (let bid = uuid4 e
              in if dry then (bid, d, if verb then [DryBoardCreate bname bid] else [])
                 else (bid, d\<lparr>boards := boards d @ [(bid, bname)]\<rparr>,
                       if verb then [BoardCreated bname bid] else [])))"

text \<open>
  \<^verbatim>\<open>add_to_board\<close>.

  Modelled from the spec: which rows \<^verbatim>\<open>INSERT OR IGNORE INTO board_images\<close> ignores is
  decided by the uniqueness constraint of the table, which is not part of the
  repository. The specification has the link ignored when the pair of collection and
  image is already there.
\<close>

definition add_to_board ::
  "env \<Rightarrow> database \<Rightarrow> string \<Rightarrow> string \<Rightarrow> bool \<Rightarrow> bool \<Rightarrow> pyexn option \<times> database \<times> event list" where
  "add_to_board e d bid name dry verb =
     (if dry then (None, d, if verb then [DryLink name bid] else [])
      else if link_fails e name then (Some SqliteError, d, [])
      else (None,
            (if (bid, name) \<in> set (board_images d) then d
             else d\<lparr>board_images := board_images d @ [(bid, name)]\<rparr>),
            if verb then [Linked name bid] else []))"

text \<open>
  \<^verbatim>\<open>thumb_path.parent.mkdir(parents=True, exist_ok=True)\<close>: every missing ancestor
  becomes a directory; a file in the way is an \<^verbatim>\<open>OSError\<close>.
\<close>

definition ancestors :: "path \<Rightarrow> path list" where
  "ancestors d = map (\<lambda>k. take k d) [1 ..< Suc (length d)]"

definition mkdir_parents :: "filesys \<Rightarrow> path \<Rightarrow> pyexn + filesys" where
  "mkdir_parents f d =
     (if list_ex (\<lambda>a. a \<in> files f) (ancestors d) then Inl OSError
      else Inr (f\<lparr>dirs := dirs f \<union> set (ancestors d)\<rparr>))"

text \<open>\<^verbatim>\<open>path.exists()\<close>.\<close>

definition path_exists :: "filesys \<Rightarrow> path \<Rightarrow> bool" where
  "path_exists f p = (p \<in> files f \<or> p \<in> dirs f)"

text \<open>
  \<^verbatim>\<open>ensure_thumbnail\<close>: nothing when the thumbnail path exists; in a dry run one line at
  most; otherwise the directories, the image (opened here when none was passed), and
  the file written by \<^verbatim>\<open>img.save\<close>.
\<close>

definition ensure_thumbnail ::
  "env \<Rightarrow> filesys \<Rightarrow> path \<Rightarrow> path \<Rightarrow> bool \<Rightarrow> bool \<Rightarrow> pil_image option \<Rightarrow>
   pyexn option \<times> filesys \<times> event list" where
  "ensure_thumbnail e f root image_path dry verb img =
     (case get_thumbnail_path root image_path of
        Inl ex \<Rightarrow> (Some ex, f, [])
      | Inr thumb_path \<Rightarrow>
          (if path_exists f thumb_path then (None, f, [])
           else if dry then (None, f, if verb then [DryThumb thumb_path] else [])
           else
             (case mkdir_parents f (butlast thumb_path) of
                Inl ex \<Rightarrow> (Some ex, f, [])
              | Inr f1 \<Rightarrow>
                  (case (case img of None \<Rightarrow> image_open e image_path | Some i \<Rightarrow> Some i) of
                     None \<Rightarrow> (Some OSError, f1, [])
                   | Some i \<Rightarrow>
                       (if renders i
                        then (None, f1\<lparr>files := insert thumb_path (files f1)\<rparr>,
                              if verb then [ThumbCreated thumb_path] else [])
                        else (Some OSError, f1, []))))))"

subsection \<open>The driver\<close>

text \<open>
  The body of \<^verbatim>\<open>for path in png_files\<close>. The result is the exception that leaves the
  loop, if any, and the world after the iteration; \<open>None\<close> covers both \<^verbatim>\<open>continue\<close> and
  the end of the body. The two \<^verbatim>\<open>try\<close> blocks catch what \<^verbatim>\<open>load_png_metadata\<close>,
  \<^verbatim>\<open>insert_image\<close> and \<^verbatim>\<open>add_to_board\<close> raise; \<^verbatim>\<open>detect_created_at\<close> and
  \<^verbatim>\<open>ensure_thumbnail\<close> are called outside of them.
\<close>

definition process_file :: "args \<Rightarrow> env \<Rightarrow> string \<Rightarrow> world \<Rightarrow> path \<Rightarrow> pyexn option \<times> world" where
  "process_file a e bid w path =
     (case relative_to path (outputs_root a @ [''images'']) of
        Inl ex \<Rightarrow> (Some ex, w)
      | Inr rel \<Rightarrow>
          (let name = path_str rel
           in if image_exists (catalog w) name
              then (None, w\<lparr>printed := printed w @ (if verbose a then [Skip name] else [])\<rparr>)
              else
                (case load_png_metadata e path of
                   Inl ex \<Rightarrow> (None, w\<lparr>printed := printed w @ [ErrRead path]\<rparr>)
                 | Inr (img, meta_raw, meta_json, graph_raw, has_graph) \<Rightarrow>
                     (case detect_created_at meta_json (mtime_of e path) of
                        Inl ex \<Rightarrow> (Some ex, w)
                      | Inr created \<Rightarrow>
                          (let w1 = w\<lparr>printed := printed w @
                                      (if verbose a then [FileLine path name] else [])\<rparr>
                           in case insert_image e (catalog w1) name img meta_raw has_graph created
                                     (dry_run a) (verbose a) of
                                (Some ex, d1, o1) \<Rightarrow>
                                  (None, w1\<lparr>catalog := d1,
                                            printed := printed w1 @ o1 @ [ErrInsert name]\<rparr>)
                              | (None, d1, o1) \<Rightarrow>
                                  (case add_to_board e d1 bid name (dry_run a) (verbose a) of
                                     (Some ex, d2, o2) \<Rightarrow>
                                       (None, w1\<lparr>catalog := d2,
                                                 printed := printed w1 @ o1 @ o2 @ [ErrInsert name]\<rparr>)
                                   | (None, d2, o2) \<Rightarrow>
                                       (let w2 = w1\<lparr>catalog := d2, printed := printed w1 @ o1 @ o2\<rparr>
                                        in if gen_thumbs a then
                                             (case ensure_thumbnail e (disk w2) (outputs_root a) path
                                                     (dry_run a) (verbose a) (Some img) of
                                                (ex, f1, o3) \<Rightarrow>
                                                  (ex, w2\<lparr>disk := f1, printed := printed w2 @ o3\<rparr>))
                                           else (None, w2))))))))"

text \<open>The loop: an exception that leaves the body ends it.\<close>

fun process_files :: "args \<Rightarrow> env \<Rightarrow> string \<Rightarrow> world \<Rightarrow> path list \<Rightarrow> pyexn option \<times> world" where
  "process_files a e bid w [] = (None, w)"
| "process_files a e bid w (path # paths) =
     (case process_file a e bid w path of
        (Some ex, w') \<Rightarrow> (Some ex, w')
      | (None, w') \<Rightarrow> process_files a e bid w' paths)"

text \<open>
  \<^verbatim>\<open>png_files\<close>: the globbed paths without those that have a part \<^verbatim>\<open>thumbnails\<close>, sorted
  (paths compare as their lists of parts).
\<close>

definition png_files :: "env \<Rightarrow> path list" where
  "png_files e = sort (filter (\<lambda>p. ''thumbnails'' \<notin> set p) (glob_png e))"

text \<open>
  \<^verbatim>\<open>main()\<close>, from the database and the file system it finds to the exception that ends
  it (if any) and the world it leaves. (Run as a script, the file prints \<^verbatim>\<open>Done.\<close> once
  more after \<^verbatim>\<open>main()\<close> has returned.)
\<close>

definition main :: "args \<Rightarrow> env \<Rightarrow> database \<Rightarrow> filesys \<Rightarrow> pyexn option \<times> world" where
  "main a e d f =
     (case ensure_import_board e d (dry_run a) (verbose a) of
        (import_board_id, d1, o1) \<Rightarrow>
          (case process_files a e import_board_id \<lparr>catalog = d1, disk = f, printed = o1\<rparr>
                  (png_files e) of
             (Some ex, w) \<Rightarrow> (Some ex, w)
           | (None, w) \<Rightarrow>
               (None, if \<not> dry_run a \<or> verbose a then w\<lparr>printed := printed w @ [Done]\<rparr> else w)))"

subsection \<open>What a dry run announces\<close>

text \<open>
  The table changes and the thumbnail a \<^verbatim>\<open>[DRY]\<close> line announces: the row of a
  \<^verbatim>\<open>[DRY][INSERT]\<close> line by name, category, origin, intermediate flag and workflow flag;
  the board of a \<^verbatim>\<open>Would create board\<close> line and the link of a \<^verbatim>\<open>Would link\<close> line as the
  rows of \<^verbatim>\<open>boards\<close> and \<^verbatim>\<open>board_images\<close>; the path of a \<^verbatim>\<open>Would create\<close> line.
\<close>

fun dry_insert :: "event \<Rightarrow> (string \<times> string \<times> string \<times> nat \<times> nat) option" where
  "dry_insert (DryInsert name category origin intermediate workflow) =
     Some (name, category, origin, intermediate, workflow)"
| "dry_insert _ = None"

fun dry_board :: "event \<Rightarrow> (string \<times> string) option" where
  "dry_board (DryBoardCreate bname bid) = Some (bid, bname)"
| "dry_board _ = None"

fun dry_link :: "event \<Rightarrow> (string \<times> string) option" where
  "dry_link (DryLink name bid) = Some (bid, name)"
| "dry_link _ = None"

fun dry_thumb :: "event \<Rightarrow> path option" where
  "dry_thumb (DryThumb p) = Some p"
| "dry_thumb _ = None"

definition dry_inserts :: "event list \<Rightarrow> (string \<times> string \<times> string \<times> nat \<times> nat) list" where
  "dry_inserts out = List.map_filter dry_insert out"

definition dry_boards :: "event list \<Rightarrow> (string \<times> string) list" where
  "dry_boards out = List.map_filter dry_board out"

definition dry_links :: "event list \<Rightarrow> (string \<times> string) list" where
  "dry_links out = List.map_filter dry_link out"

definition dry_thumbs :: "event list \<Rightarrow> path list" where
  "dry_thumbs out = List.map_filter dry_thumb out"

text \<open>The columns of a row that a \<^verbatim>\<open>[DRY][INSERT]\<close> line shows.\<close>

definition row_summary :: "image_row \<Rightarrow> string \<times> string \<times> string \<times> nat \<times> nat" where
  "row_summary r =
     (image_name r, image_category r, image_origin r, is_intermediate r, has_workflow r)"

text \<open>
  The image name the driver gives a globbed path: \<^verbatim>\<open>str(path.relative_to(images_root))\<close>
  (the empty string stands in where \<^verbatim>\<open>relative_to\<close> raises).
\<close>

definition file_name :: "args \<Rightarrow> path \<Rightarrow> string" where
  "file_name a p =
     (case relative_to p (outputs_root a @ [''images'']) of
        Inr rel \<Rightarrow> path_str rel
      | Inl _ \<Rightarrow> [])"

section \<open>Sample data\<close>

text \<open>A row of \<^verbatim>\<open>images\<close> with every column set, used to instantiate the theorems below.\<close>

definition sample_row :: "string \<Rightarrow> string \<Rightarrow> string \<Rightarrow> image_row" where
  "sample_row name category origin =
     \<lparr>image_name = name, image_origin = origin, image_category = category,
      width = 4, height = 2, metadata = None, is_intermediate = 1,
      created_at = ''2024-01-02 03:04:05.000000'', updated_at = ''2024-01-02 03:04:05.000000'',
      has_workflow = 0, other_columns = [(''starred'', ''1'')]\<rparr>"

text \<open>
  An outputs directory \<^verbatim>\<open>/out\<close> with two PNG files: \<^verbatim>\<open>images/a.png\<close>, whose header opens but
  whose pixel data cannot be decoded, and the intact \<^verbatim>\<open>images/b.png\<close>.
\<close>

definition sample_env :: env where
  "sample_env =
     \<lparr>image_open = (\<lambda>p. if p = [''/'', ''out'', ''images'', ''a.png'']
                          then Some \<lparr>img_size = (4, 2), info = [], renders = False\<rparr>
                          else if p = [''/'', ''out'', ''images'', ''b.png'']
                          then Some \<lparr>img_size = (4, 2), info = [], renders = True\<rparr>
                          else None),
      mtime_of = (\<lambda>p. \<lparr>year = 2023, month = 12, day = 31, hour = 23, minute = 59, second = 58,
                         microsecond = 7\<rparr>),
      json_loads = (\<lambda>s. Inl JSONDecodeError),
      today = ''03-11-26'',
      uuid4 = ''u1'',
      glob_png = [[''/'', ''out'', ''images'', ''b.png''], [''/'', ''out'', ''images'', ''a.png'']],
      insert_fails = (\<lambda>n. False),
      link_fails = (\<lambda>n. False)\<rparr>"

section \<open>Properties of the reclassification tools\<close>

lemma select_board_lower_empty:
  "select_board_lower db q = [] \<longleftrightarrow> (\<forall>(bid, n) \<in> set (boards db). sql_lower n \<noteq> sql_lower q)"
  by (auto simp: select_board_lower_def filter_empty_conv)

lemma select_board_lower_first:
  assumes "boards db = before @ (bid, bname) # after"
    and "\<forall>(b, n) \<in> set before. sql_lower n \<noteq> sql_lower q"
    and "sql_lower bname = sql_lower q"
  shows "\<exists>rest. select_board_lower db q = (bid, bname) # rest"
proof -
  have "filter (\<lambda>(b, n). sql_lower n = sql_lower q) before = []"
    using assms(2) by (auto simp: filter_empty_conv)
  then show ?thesis
    using assms(1,3) by (simp add: select_board_lower_def)
qed

lemma update_images_names:
  "map image_name (fst (update_images c o' n rows)) = map image_name rows"
  by (induction rows) (auto simp: update_images_def)

lemma update_images_count:
  "distinct (map image_name rows) \<Longrightarrow>
   snd (update_images c o' n rows) = (if n \<in> image_name ` set rows then 1 else 0)"
  by (induction rows) (auto simp: update_images_def)

lemma executemany_update_count:
  "distinct (map image_name rows) \<Longrightarrow>
   snd (executemany_update c o' names (rows, k)) =
   k + length (filter (\<lambda>n. n \<in> image_name ` set rows) names)"
proof (induction names arbitrary: rows k)
  case Nil
  then show ?case by simp
next
  case (Cons n names)
  obtain rows' j where u: "update_images c o' n rows = (rows', j)"
    by (cases "update_images c o' n rows")
  have names': "map image_name rows' = map image_name rows"
    using update_images_names [of c o' n rows] u by simp
  have j: "j = (if n \<in> image_name ` set rows then 1 else 0)"
    using update_images_count [OF Cons.prems, of c o' n] u by simp
  have d': "distinct (map image_name rows')"
    using Cons.prems names' by simp
  have s: "image_name ` set rows' = image_name ` set rows"
    using names' by (metis list.set_map)
  show ?case
    using Cons.IH [OF d', of "k + j"] u j s by simp
qed

lemma mark_images_dry_count:
  "fst (snd (mark_images c o' db names True v)) = length names"
  by (simp add: mark_images_def)

lemma mark_images_real_count:
  assumes "distinct (map image_name (images db))"
  shows "fst (snd (mark_images c o' db names False v)) =
         length (filter (\<lambda>n. n \<in> image_name ` set (images db)) names)"
proof (cases "names = []")
  case True
  then show ?thesis by (simp add: mark_images_def)
next
  case False
  obtain rows' k where e: "executemany_update c o' names (images db, 0) = (rows', k)"
    by (cases "executemany_update c o' names (images db, 0)")
  have "k = length (filter (\<lambda>n. n \<in> image_name ` set (images db)) names)"
    using executemany_update_count [OF assms, of c o' names 0] e by simp
  then show ?thesis
    using False e by (simp add: mark_images_def)
qed

lemma executemany_update_rows:
  "fst (executemany_update c o' names (rows, k)) =
   map (\<lambda>r. if image_name r \<in> set names then r\<lparr>image_category := c, image_origin := o'\<rparr> else r) rows"
proof (induction names arbitrary: rows k)
  case Nil
  then show ?case by simp
next
  case (Cons n names)
  show ?case
    by (simp add: update_images_def Cons.IH)
qed

lemma mark_images_real_db:
  "fst (mark_images c o' db names False v) =
   db\<lparr>images := map (\<lambda>r. if image_name r \<in> set names
                          then r\<lparr>image_category := c, image_origin := o'\<rparr> else r) (images db)\<rparr>"
proof (cases "names = []")
  case True
  then show ?thesis by (simp add: mark_images_def)
next
  case False
  obtain rows' k where e: "executemany_update c o' names (images db, 0) = (rows', k)"
    by (cases "executemany_update c o' names (images db, 0)")
  have "rows' = map (\<lambda>r. if image_name r \<in> set names
                          then r\<lparr>image_category := c, image_origin := o'\<rparr> else r) (images db)"
    using executemany_update_rows [of c o' names "images db" 0] e by simp
  then show ?thesis
    using False e by (simp add: mark_images_def)
qed

lemma conv_main_real:
  assumes "lookup db (board_name a) = Inr bid" and "\<not> conv_dry_run a"
  shows "fst (conv_main lookup (mark_images c o') a db) = None
       \<and> fst (snd (conv_main lookup (mark_images c o') a db)) =
           db\<lparr>images := map (\<lambda>r. if image_name r \<in> set (get_images_for_board db bid)
                                  then r\<lparr>image_category := c, image_origin := o'\<rparr> else r)
                              (images db)\<rparr>"
proof (cases "get_images_for_board db bid = []")
  case True
  then show ?thesis
    using assms by (simp add: conv_main_def)
next
  case False
  obtain db' n out3 where m:
    "mark_images c o' db (get_images_for_board db bid) False (conv_verbose a) = (db', n, out3)"
    by (cases "mark_images c o' db (get_images_for_board db bid) False (conv_verbose a)")
  have "db' = db\<lparr>images := map (\<lambda>r. if image_name r \<in> set (get_images_for_board db bid)
                                  then r\<lparr>image_category := c, image_origin := o'\<rparr> else r)
                              (images db)\<rparr>"
    using mark_images_real_db [of c o' db "get_images_for_board db bid" "conv_verbose a"] m by simp
  then show ?thesis
    using assms False m by (simp add: conv_main_def Let_def)
qed

lemma conv_main_empty:
  assumes "lookup db (board_name a) = Inr bid" and "get_images_for_board db bid = []"
  shows "conv_main lookup mark a db =
         (None, db, (if conv_verbose a then [InfoUsingBoard (board_name a) bid] else []) @ [NoImagesFound])"
  using assms by (simp add: conv_main_def)

lemma conv_main_report:
  assumes "lookup db (board_name a) = Inr bid" and "get_images_for_board db bid \<noteq> []"
  shows "last (snd (snd (conv_main lookup mark a db))) =
         (if conv_dry_run a
          then DryWouldUpdate (fst (snd (mark db (get_images_for_board db bid) True (conv_verbose a))))
          else UpdatedImages (fst (snd (mark db (get_images_for_board db bid) False (conv_verbose a)))))"
  using assms by (simp add: conv_main_def Let_def split: prod.splits)

lemma get_images_for_board_rows:
  "get_images_for_board db bid = map snd (filter (\<lambda>l. fst l = bid) (board_images db))"
  by (simp add: get_images_for_board_def case_prod_unfold)

lemma get_images_for_board_set:
  "n \<in> set (get_images_for_board db bid) \<longleftrightarrow> (bid, n) \<in> set (board_images db)"
  by (force simp: get_images_for_board_rows)

lemma get_images_for_board_empty:
  "get_images_for_board db bid = [] \<longleftrightarrow> (\<forall>l \<in> set (board_images db). fst l \<noteq> bid)"
  by (auto simp: get_images_for_board_rows filter_empty_conv)

text \<open>
  C4, as stated, fails for a board without linked images: the run ends normally and
  changes nothing, but it reports no update count. \<^verbatim>\<open>main\<close> returns after printing that no
  images were found, before the marking function is called and before either count line.
\<close>

theorem empty_board_prints_no_count:
  "main_assets \<lparr>board_name = ''Empty'', conv_dry_run = False, conv_verbose = False\<rparr>
     \<lparr>images = [sample_row ''a.png'' ''general'' ''internal''],
      boards = [(''b1'', ''Assets''), (''b2'', ''Empty'')],
      board_images = [(''b1'', ''a.png'')]\<rparr> =
     (None,
      \<lparr>images = [sample_row ''a.png'' ''general'' ''internal''],
       boards = [(''b1'', ''Assets''), (''b2'', ''Empty'')],
       board_images = [(''b1'', ''a.png'')]\<rparr>,
      [NoImagesFound])
   \<and> UpdatedImages 0 \<notin> set [NoImagesFound]
   \<and> main_general \<lparr>board_name = ''Empty'', conv_dry_run = True, conv_verbose = False\<rparr>
     \<lparr>images = [sample_row ''a.png'' ''general'' ''internal''],
      boards = [(''b1'', ''Assets''), (''b2'', ''Empty'')],
      board_images = [(''b1'', ''a.png'')]\<rparr> =
     (None,
      \<lparr>images = [sample_row ''a.png'' ''general'' ''internal''],
       boards = [(''b1'', ''Assets''), (''b2'', ''Empty'')],
       board_images = [(''b1'', ''a.png'')]\<rparr>,
      [NoImagesFound])
   \<and> DryWouldUpdate 0 \<notin> set [NoImagesFound]"
  by (simp add: main_assets_def main_general_def conv_main_def get_board_id_by_name_assets_def
      get_board_id_by_name_general_def select_board_lower_def sql_lower_def ascii_lower_def
      get_images_for_board_def)

text \<open>
  C4, amended. When the board name resolves to a board, a run that is not a dry run ends
  without an exception and leaves the database with exactly this change: every row of
  \<^verbatim>\<open>images\<close> whose name is linked to that board by a row of \<^verbatim>\<open>board_images\<close> has
  \<^verbatim>\<open>image_category\<close> and \<^verbatim>\<open>image_origin\<close> set to the tool's two values (\<^verbatim>\<open>user\<close> and
  \<^verbatim>\<open>external\<close>, or \<^verbatim>\<open>general\<close> and \<^verbatim>\<open>internal\<close>), all its other columns as before; every other
  row of \<^verbatim>\<open>images\<close>, and \<^verbatim>\<open>boards\<close> and \<^verbatim>\<open>board_images\<close>, are unchanged. For a board that no row
  of \<^verbatim>\<open>board_images\<close> names, the run prints that no images were found and nothing is to be
  done, prints no update count, changes nothing and ends without an exception.
\<close>

theorem reclassification_frame:
  "(get_board_id_by_name_assets db (board_name a) = Inr bid \<and> \<not> conv_dry_run a \<longrightarrow>
      fst (main_assets a db) = None \<and>
      fst (snd (main_assets a db)) =
        db\<lparr>images := map (\<lambda>r. if (bid, image_name r) \<in> set (board_images db)
                               then r\<lparr>image_category := ''user'', image_origin := ''external''\<rparr>
                               else r) (images db)\<rparr>)
   \<and> (get_board_id_by_name_general db (board_name a) = Inr bid \<and> \<not> conv_dry_run a \<longrightarrow>
      fst (main_general a db) = None \<and>
      fst (snd (main_general a db)) =
        db\<lparr>images := map (\<lambda>r. if (bid, image_name r) \<in> set (board_images db)
                               then r\<lparr>image_category := ''general'', image_origin := ''internal''\<rparr>
                               else r) (images db)\<rparr>)
   \<and> (get_board_id_by_name_assets db (board_name a) = Inr bid \<and>
       (\<forall>l \<in> set (board_images db). fst l \<noteq> bid) \<longrightarrow>
      main_assets a db =
        (None, db, (if conv_verbose a then [InfoUsingBoard (board_name a) bid] else []) @ [NoImagesFound]))
   \<and> (get_board_id_by_name_general db (board_name a) = Inr bid \<and>
       (\<forall>l \<in> set (board_images db). fst l \<noteq> bid) \<longrightarrow>
      main_general a db =
        (None, db, (if conv_verbose a then [InfoUsingBoard (board_name a) bid] else []) @ [NoImagesFound]))"
proof (intro conjI impI)
  assume h: "get_board_id_by_name_assets db (board_name a) = Inr bid \<and> \<not> conv_dry_run a"
  show "fst (main_assets a db) = None"
    using h conv_main_real [of get_board_id_by_name_assets db a bid "''user''" "''external''"]
    by (simp add: main_assets_def mark_images_as_assets_def)
  show "fst (snd (main_assets a db)) =
        db\<lparr>images := map (\<lambda>r. if (bid, image_name r) \<in> set (board_images db)
                               then r\<lparr>image_category := ''user'', image_origin := ''external''\<rparr>
                               else r) (images db)\<rparr>"
    using h conv_main_real [of get_board_id_by_name_assets db a bid "''user''" "''external''"]
    by (simp add: main_assets_def mark_images_as_assets_def get_images_for_board_set)
next
  assume h: "get_board_id_by_name_general db (board_name a) = Inr bid \<and> \<not> conv_dry_run a"
  show "fst (main_general a db) = None"
    using h conv_main_real [of get_board_id_by_name_general db a bid "''general''" "''internal''"]
    by (simp add: main_general_def mark_images_as_general_def)
  show "fst (snd (main_general a db)) =
        db\<lparr>images := map (\<lambda>r. if (bid, image_name r) \<in> set (board_images db)
                               then r\<lparr>image_category := ''general'', image_origin := ''internal''\<rparr>
                               else r) (images db)\<rparr>"
    using h conv_main_real [of get_board_id_by_name_general db a bid "''general''" "''internal''"]
    by (simp add: main_general_def mark_images_as_general_def get_images_for_board_set)
next
  assume "get_board_id_by_name_assets db (board_name a) = Inr bid \<and>
          (\<forall>l \<in> set (board_images db). fst l \<noteq> bid)"
  then show "main_assets a db =
        (None, db, (if conv_verbose a then [InfoUsingBoard (board_name a) bid] else []) @ [NoImagesFound])"
    using conv_main_empty [of get_board_id_by_name_assets db a bid mark_images_as_assets]
    by (simp add: main_assets_def get_images_for_board_empty)
next
  assume "get_board_id_by_name_general db (board_name a) = Inr bid \<and>
          (\<forall>l \<in> set (board_images db). fst l \<noteq> bid)"
  then show "main_general a db =
        (None, db, (if conv_verbose a then [InfoUsingBoard (board_name a) bid] else []) @ [NoImagesFound])"
    using conv_main_empty [of get_board_id_by_name_general db a bid mark_images_as_general]
    by (simp add: main_general_def get_images_for_board_empty)
qed

theorem reclassification_frame_witness:
  "fst (snd (main_assets \<lparr>board_name = ''assets'', conv_dry_run = False, conv_verbose = False\<rparr>
      \<lparr>images = [sample_row ''a.png'' ''general'' ''internal'', sample_row ''b.png'' ''general'' ''internal'',
                 sample_row ''c.png'' ''general'' ''internal''],
       boards = [(''b1'', ''Assets''), (''b2'', ''Other''), (''b3'', ''Empty'')],
       board_images = [(''b1'', ''a.png''), (''b2'', ''b.png'')]\<rparr>)) =
      \<lparr>images = [sample_row ''a.png'' ''user'' ''external'', sample_row ''b.png'' ''general'' ''internal'',
                 sample_row ''c.png'' ''general'' ''internal''],
       boards = [(''b1'', ''Assets''), (''b2'', ''Other''), (''b3'', ''Empty'')],
       board_images = [(''b1'', ''a.png''), (''b2'', ''b.png'')]\<rparr>
   \<and> main_general \<lparr>board_name = ''empty'', conv_dry_run = False, conv_verbose = False\<rparr>
      \<lparr>images = [sample_row ''a.png'' ''general'' ''internal'', sample_row ''b.png'' ''general'' ''internal'',
                 sample_row ''c.png'' ''general'' ''internal''],
       boards = [(''b1'', ''Assets''), (''b2'', ''Other''), (''b3'', ''Empty'')],
       board_images = [(''b1'', ''a.png''), (''b2'', ''b.png'')]\<rparr> =
      (None,
       \<lparr>images = [sample_row ''a.png'' ''general'' ''internal'', sample_row ''b.png'' ''general'' ''internal'',
                  sample_row ''c.png'' ''general'' ''internal''],
        boards = [(''b1'', ''Assets''), (''b2'', ''Other''), (''b3'', ''Empty'')],
        board_images = [(''b1'', ''a.png''), (''b2'', ''b.png'')]\<rparr>,
       [NoImagesFound])"
proof -
  let ?db = "\<lparr>images = [sample_row ''a.png'' ''general'' ''internal'', sample_row ''b.png'' ''general'' ''internal'',
                 sample_row ''c.png'' ''general'' ''internal''],
       boards = [(''b1'', ''Assets''), (''b2'', ''Other''), (''b3'', ''Empty'')],
       board_images = [(''b1'', ''a.png''), (''b2'', ''b.png'')]\<rparr>"
  have l1: "get_board_id_by_name_assets ?db ''assets'' = Inr ''b1''"
    by (simp add: get_board_id_by_name_assets_def select_board_lower_def sql_lower_def ascii_lower_def)
  have l3: "get_board_id_by_name_general ?db ''empty'' = Inr ''b3''"
    by (simp add: get_board_id_by_name_general_def select_board_lower_def sql_lower_def ascii_lower_def)
  from reclassification_frame
      [of ?db "\<lparr>board_name = ''assets'', conv_dry_run = False, conv_verbose = False\<rparr>" "''b1''",
       THEN conjunct1]
    reclassification_frame
      [of ?db "\<lparr>board_name = ''empty'', conv_dry_run = False, conv_verbose = False\<rparr>" "''b3''",
       THEN conjunct2, THEN conjunct2, THEN conjunct2]
  show ?thesis
    using l1 l3 by (simp add: sample_row_def)
qed

text \<open>
  C5. A board name that no row of \<^verbatim>\<open>boards\<close> matches (under \<^verbatim>\<open>LOWER\<close>) ends either tool
  with \<^verbatim>\<open>SystemExit\<close> and the tool's message, hence with exit status 1; the database is
  the one the tool found, and nothing was printed before.
\<close>

theorem unknown_board_exits:
  assumes "\<forall>(bid, n) \<in> set (boards db). sql_lower n \<noteq> sql_lower (board_name a)"
  shows "main_assets a db =
           (Some (SystemExit (''Board with name '' @ [CHR 0x27] @ board_name a @ [CHR 0x27] @
                              '' not found.'')), db, [])
       \<and> main_general a db =
           (Some (SystemExit (''Board with name '' @ [CHR 0x27] @ board_name a @ [CHR 0x27] @
                              '' not found (case-insensitive).'')), db, [])
       \<and> exit_status (fst (main_assets a db)) = 1
       \<and> exit_status (fst (main_general a db)) = 1"
proof -
  have e: "select_board_lower db (board_name a) = []"
    using assms by (simp add: select_board_lower_empty)
  have 1: "main_assets a db =
           (Some (SystemExit (''Board with name '' @ [CHR 0x27] @ board_name a @ [CHR 0x27] @
                              '' not found.'')), db, [])"
    by (simp add: main_assets_def conv_main_def get_board_id_by_name_assets_def e)
  have 2: "main_general a db =
           (Some (SystemExit (''Board with name '' @ [CHR 0x27] @ board_name a @ [CHR 0x27] @
                              '' not found (case-insensitive).'')), db, [])"
    by (simp add: main_general_def conv_main_def get_board_id_by_name_general_def e)
  show ?thesis
    by (simp add: 1 2 exit_status_def)
qed

theorem unknown_board_exits_witness:
  "main_assets \<lparr>board_name = ''Nope'', conv_dry_run = False, conv_verbose = True\<rparr>
     \<lparr>images = [], boards = [(''b1'', ''Assets'')], board_images = [(''b1'', ''a.png'')]\<rparr> =
   (Some (SystemExit ''Board with name 'Nope' not found.''),
    \<lparr>images = [], boards = [(''b1'', ''Assets'')], board_images = [(''b1'', ''a.png'')]\<rparr>, [])
   \<and> exit_status (fst (main_general \<lparr>board_name = ''Nope'', conv_dry_run = False, conv_verbose = True\<rparr>
     \<lparr>images = [], boards = [(''b1'', ''Assets'')], board_images = [(''b1'', ''a.png'')]\<rparr>)) = 1"
  using unknown_board_exits [of "\<lparr>images = [], boards = [(''b1'', ''Assets'')], board_images = [(''b1'', ''a.png'')]\<rparr>"
      "\<lparr>board_name = ''Nope'', conv_dry_run = False, conv_verbose = True\<rparr>"]
  by (simp add: sql_lower_def ascii_lower_def exit_status_def)

text \<open>
  C9, as stated, fails where two stored names are equal up to letter case: the lookup
  for \<^verbatim>\<open>foo\<close> over the boards \<^verbatim>\<open>Foo\<close> and \<^verbatim>\<open>foo\<close> returns the identity of \<^verbatim>\<open>Foo\<close>, the first
  matching row, although the board \<^verbatim>\<open>foo\<close> is stored and equals the query.
\<close>

theorem board_lookup_not_that_board:
  "(''id2'', ''foo'') \<in> set (boards \<lparr>images = [], boards = [(''id1'', ''Foo''), (''id2'', ''foo'')], board_images = []\<rparr>)
   \<and> sql_lower ''foo'' = sql_lower ''foo''
   \<and> get_board_id_by_name_assets
        \<lparr>images = [], boards = [(''id1'', ''Foo''), (''id2'', ''foo'')], board_images = []\<rparr> ''foo'' \<noteq> Inr ''id2''
   \<and> get_board_id_by_name_general
        \<lparr>images = [], boards = [(''id1'', ''Foo''), (''id2'', ''foo'')], board_images = []\<rparr> ''foo'' \<noteq> Inr ''id2''"
  by (simp add: get_board_id_by_name_assets_def get_board_id_by_name_general_def
      select_board_lower_def sql_lower_def ascii_lower_def)

text \<open>
  C9, amended. Board-name resolution in both tools compares names up to the case of
  ASCII letters and returns the identity of the first stored board whose name matches
  the query: a matching board is resolved to its own identity whenever no board before
  it in the table matches as well. The lookup raises exactly when no stored name
  matches.
\<close>

theorem board_lookup_case_insensitive:
  "(boards db = before @ (bid, bname) # after \<and>
    (\<forall>(b, n) \<in> set before. sql_lower n \<noteq> sql_lower q) \<and>
    sql_lower bname = sql_lower q \<longrightarrow>
      get_board_id_by_name_assets db q = Inr bid \<and> get_board_id_by_name_general db q = Inr bid)
   \<and> ((\<exists>ex. get_board_id_by_name_assets db q = Inl ex) \<longleftrightarrow>
        (\<forall>(b, n) \<in> set (boards db). sql_lower n \<noteq> sql_lower q))
   \<and> ((\<exists>ex. get_board_id_by_name_general db q = Inl ex) \<longleftrightarrow>
        (\<forall>(b, n) \<in> set (boards db). sql_lower n \<noteq> sql_lower q))"
proof (intro conjI impI)
  assume h: "boards db = before @ (bid, bname) # after \<and>
    (\<forall>(b, n) \<in> set before. sql_lower n \<noteq> sql_lower q) \<and> sql_lower bname = sql_lower q"
  then obtain rest where r: "select_board_lower db q = (bid, bname) # rest"
    using select_board_lower_first [of db before bid bname after q] by blast
  show "get_board_id_by_name_assets db q = Inr bid"
    by (simp add: get_board_id_by_name_assets_def r)
  show "get_board_id_by_name_general db q = Inr bid"
    by (simp add: get_board_id_by_name_general_def r)
next
  show "(\<exists>ex. get_board_id_by_name_assets db q = Inl ex) \<longleftrightarrow>
         (\<forall>(b, n) \<in> set (boards db). sql_lower n \<noteq> sql_lower q)"
    unfolding select_board_lower_empty [symmetric]
    by (auto simp: get_board_id_by_name_assets_def split: list.splits)
  show "(\<exists>ex. get_board_id_by_name_general db q = Inl ex) \<longleftrightarrow>
         (\<forall>(b, n) \<in> set (boards db). sql_lower n \<noteq> sql_lower q)"
    unfolding select_board_lower_empty [symmetric]
    by (auto simp: get_board_id_by_name_general_def split: list.splits)
qed

theorem board_lookup_case_insensitive_witness:
  "get_board_id_by_name_assets
     \<lparr>images = [], boards = [(''id1'', ''Foo''), (''id2'', ''Bar'')], board_images = []\<rparr> ''bAR'' = Inr ''id2''
   \<and> get_board_id_by_name_general
     \<lparr>images = [], boards = [(''id1'', ''Foo''), (''id2'', ''Bar'')], board_images = []\<rparr> ''bAR'' = Inr ''id2''"
  using board_lookup_case_insensitive
    [of "\<lparr>images = [], boards = [(''id1'', ''Foo''), (''id2'', ''Bar'')], board_images = []\<rparr>"
        "[(''id1'', ''Foo'')]" "''id2''" "''Bar''" "[]" "''bAR''"]
  by (simp add: sql_lower_def ascii_lower_def)

text \<open>
  C10. With image names unique in \<^verbatim>\<open>images\<close>: for a board with at least one row in
  \<^verbatim>\<open>board_images\<close>, the count a dry run prints is the number of rows of \<^verbatim>\<open>board_images\<close> with
  that board, and the count a real run prints is the number of those rows whose image
  name has a row in \<^verbatim>\<open>images\<close>, for both tools; so a board with a linked name that has no
  row gets a dry-run count strictly above the real-run count. These are the counts the
  marking functions return: the length of the list of names in a dry run, and the number
  of its names with a row in a real run.
\<close>

theorem update_counts:
  assumes "distinct (map image_name (images db))"
  shows "(get_board_id_by_name_assets db (board_name a) = Inr bid \<and>
          (\<exists>l \<in> set (board_images db). fst l = bid) \<longrightarrow>
            last (snd (snd (main_assets a db))) =
              (if conv_dry_run a
               then DryWouldUpdate (length (filter (\<lambda>l. fst l = bid) (board_images db)))
               else UpdatedImages
                      (length (filter (\<lambda>l. fst l = bid \<and> snd l \<in> image_name ` set (images db))
                                 (board_images db)))))
       \<and> (get_board_id_by_name_general db (board_name a) = Inr bid \<and>
          (\<exists>l \<in> set (board_images db). fst l = bid) \<longrightarrow>
            last (snd (snd (main_general a db))) =
              (if conv_dry_run a
               then DryWouldUpdate (length (filter (\<lambda>l. fst l = bid) (board_images db)))
               else UpdatedImages
                      (length (filter (\<lambda>l. fst l = bid \<and> snd l \<in> image_name ` set (images db))
                                 (board_images db)))))
       \<and> ((\<exists>l \<in> set (board_images db). fst l = bid \<and> snd l \<notin> image_name ` set (images db)) \<longrightarrow>
            length (filter (\<lambda>l. fst l = bid \<and> snd l \<in> image_name ` set (images db)) (board_images db))
              < length (filter (\<lambda>l. fst l = bid) (board_images db)))
       \<and> fst (snd (mark_images_as_assets db names True v)) = length names
       \<and> fst (snd (mark_images_as_general db names True v)) = length names
       \<and> fst (snd (mark_images_as_assets db names False v)) =
           length (filter (\<lambda>n. n \<in> image_name ` set (images db)) names)
       \<and> fst (snd (mark_images_as_general db names False v)) =
           length (filter (\<lambda>n. n \<in> image_name ` set (images db)) names)"
proof -
  let ?linked = "filter (\<lambda>l. fst l = bid) (board_images db)"
  let ?present = "filter (\<lambda>l. fst l = bid \<and> snd l \<in> image_name ` set (images db)) (board_images db)"
  have dry: "fst (snd (mark_images c o' db ns True w)) = length ns" for c o' w ns
    by (rule mark_images_dry_count)
  have real: "fst (snd (mark_images c o' db ns False w)) =
              length (filter (\<lambda>n. n \<in> image_name ` set (images db)) ns)" for c o' w ns
    by (rule mark_images_real_count [OF assms])
  have len: "length (get_images_for_board db bid) = length ?linked"
    by (simp add: get_images_for_board_rows)
  have pres: "length (filter (\<lambda>n. n \<in> image_name ` set (images db)) (get_images_for_board db bid)) =
              length ?present"
    by (simp add: get_images_for_board_rows filter_map comp_def conj_commute)
  have ne: "get_images_for_board db bid \<noteq> []" if "\<exists>l \<in> set (board_images db). fst l = bid"
    using that by (simp add: get_images_for_board_empty)
  have ma: "last (snd (snd (main_assets a db))) =
              (if conv_dry_run a then DryWouldUpdate (length ?linked)
               else UpdatedImages (length ?present))"
    if "get_board_id_by_name_assets db (board_name a) = Inr bid \<and>
        (\<exists>l \<in> set (board_images db). fst l = bid)"
    using that ne dry real len pres
      conv_main_report [of get_board_id_by_name_assets db a bid mark_images_as_assets]
    by (simp add: main_assets_def mark_images_as_assets_def)
  have mg: "last (snd (snd (main_general a db))) =
              (if conv_dry_run a then DryWouldUpdate (length ?linked)
               else UpdatedImages (length ?present))"
    if "get_board_id_by_name_general db (board_name a) = Inr bid \<and>
        (\<exists>l \<in> set (board_images db). fst l = bid)"
    using that ne dry real len pres
      conv_main_report [of get_board_id_by_name_general db a bid mark_images_as_general]
    by (simp add: main_general_def mark_images_as_general_def)
  have less: "length ?present < length ?linked"
    if "\<exists>l \<in> set (board_images db). fst l = bid \<and> snd l \<notin> image_name ` set (images db)"
  proof -
    from that obtain l where l: "l \<in> set (board_images db)" "fst l = bid"
      "snd l \<notin> image_name ` set (images db)" by blast
    have "?present = filter (\<lambda>l. snd l \<in> image_name ` set (images db)) ?linked"
      by (simp add: conj_commute)
    moreover have "l \<in> set ?linked" using l by simp
    ultimately show ?thesis
      using length_filter_less [of l ?linked "\<lambda>l. snd l \<in> image_name ` set (images db)"] l(3)
      by simp
  qed
  show ?thesis
    using ma mg less by (simp add: mark_images_as_assets_def mark_images_as_general_def dry real)
qed

theorem update_counts_witness:
  "last (snd (snd (main_assets \<lparr>board_name = ''assets'', conv_dry_run = True, conv_verbose = False\<rparr>
      \<lparr>images = [sample_row ''a.png'' ''general'' ''internal'', sample_row ''c.png'' ''general'' ''internal''],
       boards = [(''b1'', ''Assets''), (''b2'', ''Other'')],
       board_images = [(''b1'', ''a.png''), (''b2'', ''c.png''), (''b1'', ''ghost.png'')]\<rparr>))) =
     DryWouldUpdate 2
   \<and> last (snd (snd (main_general \<lparr>board_name = ''assets'', conv_dry_run = False, conv_verbose = False\<rparr>
      \<lparr>images = [sample_row ''a.png'' ''general'' ''internal'', sample_row ''c.png'' ''general'' ''internal''],
       boards = [(''b1'', ''Assets''), (''b2'', ''Other'')],
       board_images = [(''b1'', ''a.png''), (''b2'', ''c.png''), (''b1'', ''ghost.png'')]\<rparr>))) =
     UpdatedImages 1"
proof -
  let ?db = "\<lparr>images = [sample_row ''a.png'' ''general'' ''internal'', sample_row ''c.png'' ''general'' ''internal''],
       boards = [(''b1'', ''Assets''), (''b2'', ''Other'')],
       board_images = [(''b1'', ''a.png''), (''b2'', ''c.png''), (''b1'', ''ghost.png'')]\<rparr>"
  have d: "distinct (map image_name (images ?db))"
    by (simp add: sample_row_def)
  have l1: "get_board_id_by_name_assets ?db ''assets'' = Inr ''b1''"
    by (simp add: get_board_id_by_name_assets_def select_board_lower_def sql_lower_def ascii_lower_def)
  have l2: "get_board_id_by_name_general ?db ''assets'' = Inr ''b1''"
    by (simp add: get_board_id_by_name_general_def select_board_lower_def sql_lower_def ascii_lower_def)
  from update_counts [OF d, of "\<lparr>board_name = ''assets'', conv_dry_run = True, conv_verbose = False\<rparr>" "''b1''",
         THEN conjunct1]
    update_counts [OF d, of "\<lparr>board_name = ''assets'', conv_dry_run = False, conv_verbose = False\<rparr>" "''b1''",
         THEN conjunct2, THEN conjunct1]
  show ?thesis
    using l1 l2 by (simp add: sample_row_def)
qed

section \<open>Properties of the reindex tool\<close>

subsection \<open>Timestamps\<close>
















lemma strftime_sample:
  "strftime \<lparr>year = 2023, month = 12, day = 31, hour = 23, minute = 59, second = 58, microsecond = 7\<rparr> =
   ''2023-12-31 23:59:58.000007''"
  by code_simp


subsection \<open>Thumbnail paths\<close>

lemma set_last_webp:
  "ps \<noteq> [] \<Longrightarrow> ps[length ps - 1 := v] = butlast ps @ [v]"
  by (cases ps rule: rev_cases) simp_all

lemma relative_to_append:
  "\<not> is_absolute rel \<Longrightarrow> relative_to (root @ rel) root = Inr rel"
  by (simp add: relative_to_def)

lemma get_thumbnail_path_rel:
  assumes "relative_to image_path root = Inr rel" and "rel \<noteq> []"
  shows "get_thumbnail_path root image_path =
         Inr (root @ butlast (if hd rel = ''images'' then list_insert 1 ''thumbnails'' rel else rel) @
              [stem (last (if hd rel = ''images'' then list_insert 1 ''thumbnails'' rel else rel)) @ ''.webp''])"
proof -
  define ps where "ps = (if rel \<noteq> [] \<and> hd rel = ''images'' then list_insert 1 ''thumbnails'' rel else rel)"
  have ne: "ps \<noteq> []"
    using assms(2) by (simp add: ps_def list_insert_def)
  have "get_thumbnail_path root image_path =
        (if ps = [] then Inl IndexError
         else Inr (root @ ps[length ps - 1 := stem (last ps) @ ''.webp'']))"
    by (simp only: get_thumbnail_path_def assms(1) sum.case Let_def ps_def)
  also have "\<dots> = Inr (root @ butlast ps @ [stem (last ps) @ ''.webp''])"
    by (simp only: ne if_False set_last_webp [OF ne])
  finally show ?thesis
    using assms(2) by (simp add: ps_def)
qed

text \<open>
  C7. For an image path with at least one component below the outputs root, the derived
  path is the root followed by the relative components, with \<^verbatim>\<open>thumbnails\<close> inserted right
  after the first component exactly when that component is \<^verbatim>\<open>images\<close>, and with the last
  component replaced by its stem followed by \<^verbatim>\<open>.webp\<close>; \<^verbatim>\<open>R/images/a/b.png\<close> gives
  \<^verbatim>\<open>R/images/thumbnails/a/b.webp\<close> for every root \<^verbatim>\<open>R\<close>. For an image path that is not
  under the root the function raises \<^verbatim>\<open>ValueError\<close>.
\<close>

theorem thumbnail_path_derivation:
  "(relative_to image_path root = Inr (c # cs) \<and> c = ''images'' \<longrightarrow>
      get_thumbnail_path root image_path =
        Inr (root @ butlast (c # ''thumbnails'' # cs) @ [stem (last (''thumbnails'' # cs)) @ ''.webp'']))
   \<and> (relative_to image_path root = Inr (c # cs) \<and> c \<noteq> ''images'' \<longrightarrow>
      get_thumbnail_path root image_path =
        Inr (root @ butlast (c # cs) @ [stem (last (c # cs)) @ ''.webp'']))
   \<and> get_thumbnail_path root (root @ [''images'', ''a'', ''b.png'']) =
        Inr (root @ [''images'', ''thumbnails'', ''a'', ''b.webp''])
   \<and> ((\<exists>ex. relative_to image_path root = Inl ex) \<longrightarrow>
        get_thumbnail_path root image_path = Inl ValueError)"
proof (intro conjI impI)
  assume h: "relative_to image_path root = Inr (c # cs) \<and> c = ''images''"
  then show "get_thumbnail_path root image_path =
        Inr (root @ butlast (c # ''thumbnails'' # cs) @ [stem (last (''thumbnails'' # cs)) @ ''.webp''])"
    using get_thumbnail_path_rel [of image_path root "c # cs"]
    by (simp add: list_insert_def)
next
  assume h: "relative_to image_path root = Inr (c # cs) \<and> c \<noteq> ''images''"
  then show "get_thumbnail_path root image_path =
        Inr (root @ butlast (c # cs) @ [stem (last (c # cs)) @ ''.webp''])"
    using get_thumbnail_path_rel [of image_path root "c # cs"] by simp
next
  have "relative_to (root @ [''images'', ''a'', ''b.png'']) root = Inr [''images'', ''a'', ''b.png'']"
    by (rule relative_to_append) (simp add: is_absolute_def)
  then show "get_thumbnail_path root (root @ [''images'', ''a'', ''b.png'']) =
        Inr (root @ [''images'', ''thumbnails'', ''a'', ''b.webp''])"
    using get_thumbnail_path_rel [of "root @ [''images'', ''a'', ''b.png'']" root "[''images'', ''a'', ''b.png'']"]
    by (simp add: list_insert_def stem_def)
next
  assume "\<exists>ex. relative_to image_path root = Inl ex"
  then show "get_thumbnail_path root image_path = Inl ValueError"
    by (auto simp: get_thumbnail_path_def)
qed

theorem thumbnail_path_derivation_witness:
  "get_thumbnail_path [''/'', ''out''] [''/'', ''out'', ''images'', ''2024'', ''pic.v2.png''] =
     Inr [''/'', ''out'', ''images'', ''thumbnails'', ''2024'', ''pic.v2.webp'']
   \<and> get_thumbnail_path [''/'', ''out''] [''/'', ''out'', ''other'', ''pic.png''] =
     Inr [''/'', ''out'', ''other'', ''pic.webp'']
   \<and> get_thumbnail_path [''/'', ''out''] [''/'', ''elsewhere'', ''images'', ''pic.png''] = Inl ValueError"
  using thumbnail_path_derivation [of "[''/'', ''out'', ''images'', ''2024'', ''pic.v2.png'']" "[''/'', ''out'']"
             "''images''" "[''2024'', ''pic.v2.png'']"]
        thumbnail_path_derivation [of "[''/'', ''out'', ''other'', ''pic.png'']" "[''/'', ''out'']"
             "''other''" "[''pic.png'']"]
        thumbnail_path_derivation [of "[''/'', ''elsewhere'', ''images'', ''pic.png'']" "[''/'', ''out'']"]
  by (simp add: relative_to_def stem_def)

subsection \<open>Thumbnail generation\<close>

lemma ensure_thumbnail_present:
  assumes "get_thumbnail_path root p = Inr t" and "path_exists f t"
  shows "ensure_thumbnail e f root p dry verb img = (None, f, [])"
  using assms by (simp add: ensure_thumbnail_def)

lemma ensure_thumbnail_real_exists:
  assumes "ensure_thumbnail e f root p False verb img = (None, f1, out1)"
  shows "\<exists>t. get_thumbnail_path root p = Inr t \<and> path_exists f1 t"
proof (cases "get_thumbnail_path root p")
  case (Inl ex)
  then show ?thesis using assms by (simp add: ensure_thumbnail_def)
next
  case (Inr t)
  show ?thesis
  proof (cases "path_exists f t")
    case True
    then show ?thesis using assms Inr by (simp add: ensure_thumbnail_def)
  next
    case False
    then show ?thesis
      using assms Inr
      by (auto simp: ensure_thumbnail_def path_exists_def split: sum.splits option.splits if_splits)
  qed
qed

text \<open>
  C8. When the derived thumbnail path exists, \<^verbatim>\<open>ensure_thumbnail\<close> returns at once: the file
  system is the one it found (no directory made, nothing written) and nothing is
  printed. In particular, after a call that generated the thumbnail, a second call for
  the same source file changes nothing, whatever its flags.
\<close>

theorem thumbnail_noop_when_present:
  "(get_thumbnail_path root p = Inr t \<and> path_exists f t \<longrightarrow>
      ensure_thumbnail e f root p dry verb img = (None, f, []))
   \<and> (ensure_thumbnail e f root p False verb img = (None, f1, out1) \<longrightarrow>
      ensure_thumbnail e' f1 root p dry' verb' img' = (None, f1, []))"
proof (intro conjI impI)
  assume "get_thumbnail_path root p = Inr t \<and> path_exists f t"
  then show "ensure_thumbnail e f root p dry verb img = (None, f, [])"
    by (simp add: ensure_thumbnail_present)
next
  assume "ensure_thumbnail e f root p False verb img = (None, f1, out1)"
  then obtain t where "get_thumbnail_path root p = Inr t" and "path_exists f1 t"
    using ensure_thumbnail_real_exists by blast
  then show "ensure_thumbnail e' f1 root p dry' verb' img' = (None, f1, [])"
    by (rule ensure_thumbnail_present)
qed

theorem thumbnail_noop_when_present_witness:
  "ensure_thumbnail sample_env
      \<lparr>files = {[''/'', ''out'', ''images'', ''thumbnails'', ''b.webp'']}, dirs = {}\<rparr>
      [''/'', ''out''] [''/'', ''out'', ''images'', ''b.png''] False True None =
     (None, \<lparr>files = {[''/'', ''out'', ''images'', ''thumbnails'', ''b.webp'']}, dirs = {}\<rparr>, [])
   \<and> ensure_thumbnail sample_env
      \<lparr>files = {[''/'', ''out'', ''images'', ''thumbnails'', ''b.webp'']},
       dirs = {[''/''], [''/'', ''out''], [''/'', ''out'', ''images''],
               [''/'', ''out'', ''images'', ''thumbnails'']}\<rparr>
      [''/'', ''out''] [''/'', ''out'', ''images'', ''b.png''] False True None =
     (None,
      \<lparr>files = {[''/'', ''out'', ''images'', ''thumbnails'', ''b.webp'']},
       dirs = {[''/''], [''/'', ''out''], [''/'', ''out'', ''images''],
               [''/'', ''out'', ''images'', ''thumbnails'']}\<rparr>, [])"
proof -
  have t: "get_thumbnail_path [''/'', ''out''] [''/'', ''out'', ''images'', ''b.png''] =
           Inr [''/'', ''out'', ''images'', ''thumbnails'', ''b.webp'']"
    by (simp add: get_thumbnail_path_def relative_to_def list_insert_def stem_def)
  have first: "ensure_thumbnail sample_env \<lparr>files = {}, dirs = {}\<rparr>
      [''/'', ''out''] [''/'', ''out'', ''images'', ''b.png''] False True None =
     (None,
      \<lparr>files = {[''/'', ''out'', ''images'', ''thumbnails'', ''b.webp'']},
       dirs = {[''/''], [''/'', ''out''], [''/'', ''out'', ''images''],
               [''/'', ''out'', ''images'', ''thumbnails'']}\<rparr>,
      [ThumbCreated [''/'', ''out'', ''images'', ''thumbnails'', ''b.webp'']])"
    by (simp add: ensure_thumbnail_def t path_exists_def mkdir_parents_def ancestors_def
        sample_env_def insert_commute)
  have present: "ensure_thumbnail sample_env
      \<lparr>files = {[''/'', ''out'', ''images'', ''thumbnails'', ''b.webp'']}, dirs = {}\<rparr>
      [''/'', ''out''] [''/'', ''out'', ''images'', ''b.png''] False True None =
     (None, \<lparr>files = {[''/'', ''out'', ''images'', ''thumbnails'', ''b.webp'']}, dirs = {}\<rparr>, [])"
    using thumbnail_noop_when_present
        [where root = "[''/'', ''out'']" and p = "[''/'', ''out'', ''images'', ''b.png'']"
           and t = "[''/'', ''out'', ''images'', ''thumbnails'', ''b.webp'']"
           and f = "\<lparr>files = {[''/'', ''out'', ''images'', ''thumbnails'', ''b.webp'']}, dirs = {}\<rparr>"
           and e = sample_env and dry = False and verb = True and img = None,
         THEN conjunct1]
      t
    by (simp add: path_exists_def)
  have again: "ensure_thumbnail sample_env
      \<lparr>files = {[''/'', ''out'', ''images'', ''thumbnails'', ''b.webp'']},
       dirs = {[''/''], [''/'', ''out''], [''/'', ''out'', ''images''],
               [''/'', ''out'', ''images'', ''thumbnails'']}\<rparr>
      [''/'', ''out''] [''/'', ''out'', ''images'', ''b.png''] False True None =
     (None,
      \<lparr>files = {[''/'', ''out'', ''images'', ''thumbnails'', ''b.webp'']},
       dirs = {[''/''], [''/'', ''out''], [''/'', ''out'', ''images''],
               [''/'', ''out'', ''images'', ''thumbnails'']}\<rparr>, [])"
    using thumbnail_noop_when_present
        [where root = "[''/'', ''out'']" and p = "[''/'', ''out'', ''images'', ''b.png'']"
           and f = "\<lparr>files = {}, dirs = {}\<rparr>" and e = sample_env and verb = True and img = None
           and e' = sample_env and dry' = False and verb' = True and img' = None,
         THEN conjunct2, rule_format, OF first] .
  show ?thesis
    using present again by simp
qed

subsection \<open>The driver\<close>

lemma insert_image_appends:
  assumes "insert_image e d name img meta_raw has_graph created dry verb = (ex, d1, o1)"
  shows "boards d1 = boards d \<and> board_images d1 = board_images d \<and>
         (\<exists>rows. images d1 = images d @ rows \<and> (\<forall>r \<in> set rows. image_name r = name))"
  using assms by (auto simp: insert_image_def Let_def split: if_splits)

lemma add_to_board_appends:
  assumes "add_to_board e d bid name dry verb = (ex, d1, o1)"
  shows "boards d1 = boards d \<and> images d1 = images d \<and>
         (\<exists>links. board_images d1 = board_images d @ links \<and> (\<forall>l \<in> set links. snd l = name))"
  using assms by (auto simp: add_to_board_def split: if_splits)

lemma process_file_skip:
  assumes "relative_to path (outputs_root a @ [''images'']) = Inr rel"
    and "image_exists (catalog w) (path_str rel)"
  shows "process_file a e bid w path =
         (None, w\<lparr>printed := printed w @ (if verbose a then [Skip (path_str rel)] else [])\<rparr>)"
  using assms by (simp add: process_file_def)

lemma process_file_appends:
  assumes "process_file a e bid w path = (ex, w')"
  shows "boards (catalog w') = boards (catalog w) \<and>
         (\<exists>rows links.
            images (catalog w') = images (catalog w) @ rows \<and>
            board_images (catalog w') = board_images (catalog w) @ links \<and>
            (\<forall>r \<in> set rows. \<not> image_exists (catalog w) (image_name r)) \<and>
            (\<forall>l \<in> set links. \<not> image_exists (catalog w) (snd l)))"
proof (cases "relative_to path (outputs_root a @ [''images''])")
  case (Inl x)
  then show ?thesis using assms by (auto simp: process_file_def)
next
  case (Inr rel)
  show ?thesis
  proof (cases "image_exists (catalog w) (path_str rel)")
    case True
    then show ?thesis
      using assms process_file_skip [OF Inr True, of e bid] by auto
  next
    case False
    show ?thesis
    proof (cases "load_png_metadata e path")
      case (Inl x)
      then show ?thesis
        using assms Inr False by (auto simp: process_file_def)
    next
      case loaded: (Inr tup)
      obtain img meta_raw meta_json graph_raw has_graph
        where tup: "tup = (img, meta_raw, meta_json, graph_raw, has_graph)"
        by (cases tup) auto
      show ?thesis
      proof (cases "detect_created_at meta_json (mtime_of e path)")
        case (Inl x)
        then show ?thesis
          using assms Inr False loaded tup by (auto simp: process_file_def)
      next
        case created: (Inr created)
        obtain ex1 d1 o1 where ins:
          "insert_image e (catalog w) (path_str rel) img meta_raw has_graph created
             (dry_run a) (verbose a) = (ex1, d1, o1)"
          by (cases "insert_image e (catalog w) (path_str rel) img meta_raw has_graph created
             (dry_run a) (verbose a)") auto
        obtain ex2 d2 o2 where lnk:
          "add_to_board e d1 bid (path_str rel) (dry_run a) (verbose a) = (ex2, d2, o2)"
          by (cases "add_to_board e d1 bid (path_str rel) (dry_run a) (verbose a)") auto
        note i = insert_image_appends [OF ins]
        note l = add_to_board_appends [OF lnk]
        from i obtain rows where rows: "images d1 = images (catalog w) @ rows"
          "\<forall>r \<in> set rows. image_name r = path_str rel" by blast
        from l obtain links where links: "board_images d2 = board_images d1 @ links"
          "\<forall>l \<in> set links. snd l = path_str rel" by blast
        have cat: "catalog w' = d1 \<or> catalog w' = d2"
          using assms Inr False loaded tup created ins lnk
          by (auto simp: process_file_def Let_def split: option.splits prod.splits if_splits)
        have r1: "\<forall>r \<in> set rows. \<not> image_exists (catalog w) (image_name r)"
          using rows(2) False by simp
        have l1: "\<forall>l \<in> set links. \<not> image_exists (catalog w) (snd l)"
          using links(2) False by simp
        from cat show ?thesis
        proof
          assume "catalog w' = d1"
          then show ?thesis
            using i rows r1 by (intro conjI exI [of _ rows] exI [of _ "[]"]) simp_all
        next
          assume "catalog w' = d2"
          then show ?thesis
            using i l rows links r1 l1 by (intro conjI exI [of _ rows] exI [of _ links]) simp_all
        qed
      qed
    qed
  qed
qed

lemma image_exists_append:
  "images d1 = images d @ rows \<Longrightarrow> image_exists d n \<Longrightarrow> image_exists d1 n"
  by (auto simp: image_exists_def list_ex_iff)

lemma process_files_appends:
  assumes "process_files a e bid w paths = (ex, w')"
  shows "boards (catalog w') = boards (catalog w) \<and>
         (\<exists>rows links.
            images (catalog w') = images (catalog w) @ rows \<and>
            board_images (catalog w') = board_images (catalog w) @ links \<and>
            (\<forall>r \<in> set rows. \<not> image_exists (catalog w) (image_name r)) \<and>
            (\<forall>l \<in> set links. \<not> image_exists (catalog w) (snd l)))"
  using assms
proof (induction paths arbitrary: w)
  case Nil
  then show ?case by simp
next
  case (Cons path paths)
  obtain ex1 w1 where step: "process_file a e bid w path = (ex1, w1)"
    by (cases "process_file a e bid w path") auto
  from process_file_appends [OF step] obtain rows links where
    1: "boards (catalog w1) = boards (catalog w)"
       "images (catalog w1) = images (catalog w) @ rows"
       "board_images (catalog w1) = board_images (catalog w) @ links"
       "\<forall>r \<in> set rows. \<not> image_exists (catalog w) (image_name r)"
       "\<forall>l \<in> set links. \<not> image_exists (catalog w) (snd l)"
    by blast
  show ?case
  proof (cases ex1)
    case (Some x)
    then have "w' = w1" using Cons.prems step by simp
    then show ?thesis using 1 by blast
  next
    case None
    then have rest: "process_files a e bid w1 paths = (ex, w')"
      using Cons.prems step by simp
    from Cons.IH [OF rest] obtain rows' links' where
      2: "boards (catalog w') = boards (catalog w1)"
         "images (catalog w') = images (catalog w1) @ rows'"
         "board_images (catalog w') = board_images (catalog w1) @ links'"
         "\<forall>r \<in> set rows'. \<not> image_exists (catalog w1) (image_name r)"
         "\<forall>l \<in> set links'. \<not> image_exists (catalog w1) (snd l)"
      by blast
    have 3: "\<forall>r \<in> set rows'. \<not> image_exists (catalog w) (image_name r)"
      using 2(4) image_exists_append [OF 1(2)] by blast
    have 4: "\<forall>l \<in> set links'. \<not> image_exists (catalog w) (snd l)"
      using 2(5) image_exists_append [OF 1(2)] by blast
    show ?thesis
      using 1 2 3 4
      by (intro conjI exI [of _ "rows @ rows'"] exI [of _ "links @ links'"]) auto
  qed
qed

lemma process_files_all_cataloged:
  assumes "\<forall>p \<in> set paths. \<exists>rel. relative_to p (outputs_root a @ [''images'']) = Inr rel \<and>
                                  image_exists (catalog w) (path_str rel)"
  shows "\<exists>out. process_files a e bid w paths = (None, w\<lparr>printed := printed w @ out\<rparr>)"
  using assms
proof (induction paths arbitrary: w)
  case Nil
  show ?case by (intro exI [of _ "[]"]) simp
next
  case (Cons path paths)
  from Cons.prems obtain rel where
    rel: "relative_to path (outputs_root a @ [''images'']) = Inr rel"
         "image_exists (catalog w) (path_str rel)" by auto
  let ?w1 = "w\<lparr>printed := printed w @ (if verbose a then [Skip (path_str rel)] else [])\<rparr>"
  have step: "process_file a e bid w path = (None, ?w1)"
    by (rule process_file_skip [OF rel])
  have "\<forall>p \<in> set paths. \<exists>rel. relative_to p (outputs_root a @ [''images'']) = Inr rel \<and>
                                  image_exists (catalog ?w1) (path_str rel)"
    using Cons.prems by simp
  from Cons.IH [OF this] obtain out where
    "process_files a e bid ?w1 paths = (None, ?w1\<lparr>printed := printed ?w1 @ out\<rparr>)" by blast
  then show ?case
    using step
    by (intro exI [of _ "(if verbose a then [Skip (path_str rel)] else []) @ out"]) simp
qed

lemma ensure_import_board_tables:
  assumes "ensure_import_board e d dry verb = (bid, d1, o1)"
  shows "images d1 = images d \<and> board_images d1 = board_images d"
  using assms by (auto simp: ensure_import_board_def Let_def split: option.splits if_splits)

text \<open>
  C1. A file whose relative path already names a row of \<^verbatim>\<open>images\<close> is skipped right after
  the existence check: the iteration changes neither the catalog nor the disk and at
  most prints the skip. Hence a run over a directory whose files are all cataloged ends
  normally with \<^verbatim>\<open>images\<close>, \<^verbatim>\<open>board_images\<close> and the disk as it found them; and in any run,
  every row appended to \<^verbatim>\<open>images\<close> and every link appended to \<^verbatim>\<open>board_images\<close> carries an
  image name that had no row at the start.
\<close>

theorem cataloged_files_are_skipped:
  "(relative_to path (outputs_root a @ [''images'']) = Inr rel \<and> image_exists (catalog w) (path_str rel) \<longrightarrow>
      process_file a e bid w path =
        (None, w\<lparr>printed := printed w @ (if verbose a then [Skip (path_str rel)] else [])\<rparr>))
   \<and> ((\<forall>p \<in> set (png_files e). \<exists>rel. relative_to p (outputs_root a @ [''images'']) = Inr rel \<and>
                                        image_exists d (path_str rel)) \<longrightarrow>
        fst (main a e d f) = None \<and>
        images (catalog (snd (main a e d f))) = images d \<and>
        board_images (catalog (snd (main a e d f))) = board_images d \<and>
        disk (snd (main a e d f)) = f)
   \<and> (\<exists>rows links.
        images (catalog (snd (main a e d f))) = images d @ rows \<and>
        board_images (catalog (snd (main a e d f))) = board_images d @ links \<and>
        (\<forall>r \<in> set rows. \<not> image_exists d (image_name r)) \<and>
        (\<forall>l \<in> set links. \<not> image_exists d (snd l)))"
proof (intro conjI impI)
  assume "relative_to path (outputs_root a @ [''images'']) = Inr rel \<and> image_exists (catalog w) (path_str rel)"
  then show "process_file a e bid w path =
        (None, w\<lparr>printed := printed w @ (if verbose a then [Skip (path_str rel)] else [])\<rparr>)"
    by (simp add: process_file_skip)
next
  obtain bid d1 o1 where b: "ensure_import_board e d (dry_run a) (verbose a) = (bid, d1, o1)"
    by (cases "ensure_import_board e d (dry_run a) (verbose a)") auto
  note t = ensure_import_board_tables [OF b]
  have ex: "image_exists d1 n = image_exists d n" for n
    using t by (simp add: image_exists_def)
  let ?w0 = "\<lparr>catalog = d1, disk = f, printed = o1\<rparr>"
  {
    assume all: "\<forall>p \<in> set (png_files e). \<exists>rel. relative_to p (outputs_root a @ [''images'']) = Inr rel \<and>
                                        image_exists d (path_str rel)"
    then have "\<forall>p \<in> set (png_files e). \<exists>rel. relative_to p (outputs_root a @ [''images'']) = Inr rel \<and>
                                        image_exists (catalog ?w0) (path_str rel)"
      using ex by simp
    from process_files_all_cataloged [OF this, of e bid] obtain out where
      run: "process_files a e bid ?w0 (png_files e) = (None, ?w0\<lparr>printed := printed ?w0 @ out\<rparr>)"
      by blast
    show "fst (main a e d f) = None"
      using b run by (simp add: main_def)
    show "images (catalog (snd (main a e d f))) = images d"
      using b run t by (simp add: main_def)
    show "board_images (catalog (snd (main a e d f))) = board_images d"
      using b run t by (simp add: main_def)
    show "disk (snd (main a e d f)) = f"
      using b run by (simp add: main_def)
  }
  obtain ex' w' where run: "process_files a e bid ?w0 (png_files e) = (ex', w')"
    by (cases "process_files a e bid ?w0 (png_files e)") auto
  have cat: "catalog (snd (main a e d f)) = catalog w'"
    using b run by (cases ex') (simp_all add: main_def)
  from process_files_appends [OF run] obtain rows links where
    "images (catalog w') = images d1 @ rows"
    "board_images (catalog w') = board_images d1 @ links"
    "\<forall>r \<in> set rows. \<not> image_exists d1 (image_name r)"
    "\<forall>l \<in> set links. \<not> image_exists d1 (snd l)"
    by auto
  then show "\<exists>rows links.
        images (catalog (snd (main a e d f))) = images d @ rows \<and>
        board_images (catalog (snd (main a e d f))) = board_images d @ links \<and>
        (\<forall>r \<in> set rows. \<not> image_exists d (image_name r)) \<and>
        (\<forall>l \<in> set links. \<not> image_exists d (snd l))"
    using cat t ex by (intro exI [of _ rows] exI [of _ links]) simp
qed

lemmas run_defs = main_def png_files_def process_file_def relative_to_def
     path_str_def image_exists_def load_png_metadata_def detect_created_at_def insert_image_def add_to_board_def
     ensure_import_board_def ensure_thumbnail_def get_thumbnail_path_def list_insert_def stem_def mkdir_parents_def
     ancestors_def path_exists_def is_absolute_def Let_def

theorem cataloged_files_are_skipped_witness:
  "fst (main \<lparr>outputs_root = [''/'', ''out''], dry_run = False, verbose = True, gen_thumbs = True\<rparr>
        sample_env
        \<lparr>images = [sample_row ''b.png'' ''user'' ''external'', sample_row ''a.png'' ''general'' ''internal''],
         boards = [], board_images = []\<rparr>
        \<lparr>files = {}, dirs = {}\<rparr>) = None
   \<and> images (catalog (snd (main \<lparr>outputs_root = [''/'', ''out''], dry_run = False, verbose = True, gen_thumbs = True\<rparr>
        sample_env
        \<lparr>images = [sample_row ''b.png'' ''user'' ''external'', sample_row ''a.png'' ''general'' ''internal''],
         boards = [], board_images = []\<rparr>
        \<lparr>files = {}, dirs = {}\<rparr>))) =
      [sample_row ''b.png'' ''user'' ''external'', sample_row ''a.png'' ''general'' ''internal'']
   \<and> board_images (catalog (snd (main \<lparr>outputs_root = [''/'', ''out''], dry_run = False, verbose = True, gen_thumbs = True\<rparr>
        sample_env
        \<lparr>images = [sample_row ''b.png'' ''user'' ''external'', sample_row ''a.png'' ''general'' ''internal''],
         boards = [], board_images = []\<rparr>
        \<lparr>files = {}, dirs = {}\<rparr>))) = []"
  using cataloged_files_are_skipped
    [where a = "\<lparr>outputs_root = [''/'', ''out''], dry_run = False, verbose = True, gen_thumbs = True\<rparr>"
       and e = sample_env
       and d = "\<lparr>images = [sample_row ''b.png'' ''user'' ''external'', sample_row ''a.png'' ''general'' ''internal''],
                 boards = [], board_images = []\<rparr>"
       and f = "\<lparr>files = {}, dirs = {}\<rparr>",
     THEN conjunct2, THEN conjunct1]
  by (simp add: png_files_def sample_env_def relative_to_def path_str_def image_exists_def sample_row_def)

text \<open>
  C2 does not hold of the code. With thumbnails requested, \<^verbatim>\<open>a.png\<close> is inserted and linked,
  then \<^verbatim>\<open>ensure_thumbnail\<close> raises on its undecodable pixel data outside of any \<^verbatim>\<open>try\<close>:
  the exception ends the run, nothing is printed for it, and the readable \<^verbatim>\<open>b.png\<close>, next
  in the sorted list, is never processed.
\<close>

theorem thumbnail_failure_aborts_run:
  "main \<lparr>outputs_root = [''/'', ''out''], dry_run = False, verbose = False, gen_thumbs = True\<rparr>
        sample_env \<lparr>images = [], boards = [], board_images = []\<rparr> \<lparr>files = {}, dirs = {}\<rparr> =
     (Some OSError,
      \<lparr>catalog =
         \<lparr>images = [\<lparr>image_name = ''a.png'', image_origin = ''internal'', image_category = ''general'',
                     width = 4, height = 2, metadata = None, is_intermediate = 0,
                     created_at = ''2023-12-31 23:59:58.000007'',
                     updated_at = ''2023-12-31 23:59:58.000007'',
                     has_workflow = 0, other_columns = []\<rparr>],
          boards = [(''u1'', ''Recovered 03-11-26'')],
          board_images = [(''u1'', ''a.png'')]\<rparr>,
       disk = \<lparr>files = {},
               dirs = {[''/''], [''/'', ''out''], [''/'', ''out'', ''images''],
                       [''/'', ''out'', ''images'', ''thumbnails'']}\<rparr>,
       printed = []\<rparr>)
   \<and> image_open sample_env [''/'', ''out'', ''images'', ''b.png''] =
       Some \<lparr>img_size = (4, 2), info = [], renders = True\<rparr>
   \<and> [''/'', ''out'', ''images'', ''b.png''] \<in> set (png_files sample_env)"
  by (simp add: run_defs sample_env_def strftime_sample insert_commute)

theorem thumbnail_failure_aborts_run_witness:
  "fst (main \<lparr>outputs_root = [''/'', ''out''], dry_run = False, verbose = False, gen_thumbs = True\<rparr>
          sample_env \<lparr>images = [], boards = [], board_images = []\<rparr> \<lparr>files = {}, dirs = {}\<rparr>) =
     Some OSError
   \<and> \<not> image_exists
        (catalog (snd (main \<lparr>outputs_root = [''/'', ''out''], dry_run = False, verbose = False, gen_thumbs = True\<rparr>
          sample_env \<lparr>images = [], boards = [], board_images = []\<rparr> \<lparr>files = {}, dirs = {}\<rparr>)))
        ''b.png''"
  using thumbnail_failure_aborts_run by (simp add: image_exists_def)

subsection \<open>Dry runs\<close>

lemma dry_lists_append:
  "dry_inserts (xs @ ys) = dry_inserts xs @ dry_inserts ys"
  "dry_boards (xs @ ys) = dry_boards xs @ dry_boards ys"
  "dry_links (xs @ ys) = dry_links xs @ dry_links ys"
  "dry_thumbs (xs @ ys) = dry_thumbs xs @ dry_thumbs ys"
  by (simp_all add: dry_inserts_def dry_boards_def dry_links_def dry_thumbs_def map_filter_def)

lemma dry_lists_Nil:
  "dry_inserts [] = []" "dry_boards [] = []" "dry_links [] = []" "dry_thumbs [] = []"
  by (simp_all add: dry_inserts_def dry_boards_def dry_links_def dry_thumbs_def map_filter_def)

lemma dry_lists_Cons:
  "dry_inserts (x # xs) = (case dry_insert x of Some v \<Rightarrow> v # dry_inserts xs | None \<Rightarrow> dry_inserts xs)"
  "dry_boards (x # xs) = (case dry_board x of Some v \<Rightarrow> v # dry_boards xs | None \<Rightarrow> dry_boards xs)"
  "dry_links (x # xs) = (case dry_link x of Some v \<Rightarrow> v # dry_links xs | None \<Rightarrow> dry_links xs)"
  "dry_thumbs (x # xs) = (case dry_thumb x of Some v \<Rightarrow> v # dry_thumbs xs | None \<Rightarrow> dry_thumbs xs)"
  by (simp_all add: dry_inserts_def dry_boards_def dry_links_def dry_thumbs_def map_filter_def
      split: option.splits)

lemmas dry_lists = dry_lists_append dry_lists_Nil dry_lists_Cons

text \<open>A dry run changes neither the catalog nor the disk.\<close>

lemma ensure_thumbnail_dry:
  "ensure_thumbnail e f root p True verb img = (ex, f1, o1) \<Longrightarrow> f1 = f"
  by (auto simp: ensure_thumbnail_def split: sum.splits if_splits)

lemma process_file_dry:
  assumes "dry_run a" and "process_file a e bid w p = (ex, w')"
  shows "catalog w' = catalog w \<and> disk w' = disk w \<and> (\<exists>out. printed w' = printed w @ out)"
  using assms
  by (auto simp: process_file_def insert_image_def add_to_board_def Let_def
      split: sum.splits prod.splits if_splits option.splits dest: ensure_thumbnail_dry)

lemma process_files_dry:
  assumes "dry_run a" and "process_files a e bid w ps = (ex, w')"
  shows "catalog w' = catalog w \<and> disk w' = disk w \<and> (\<exists>out. printed w' = printed w @ out)"
  using assms(2)
proof (induction ps arbitrary: w)
  case Nil
  then show ?case by simp
next
  case (Cons p ps)
  obtain ex1 w1 where step: "process_file a e bid w p = (ex1, w1)"
    by (cases "process_file a e bid w p") auto
  note s = process_file_dry [OF assms(1) step]
  show ?case
  proof (cases ex1)
    case (Some x)
    then have "w' = w1" using Cons.prems step by simp
    then show ?thesis using s by simp
  next
    case None
    then have "process_files a e bid w1 ps = (ex, w')"
      using Cons.prems step by simp
    from Cons.IH [OF this] s show ?thesis by auto
  qed
qed

lemma ensure_import_board_dry:
  "ensure_import_board e d True verb = (bid, d1, o1) \<Longrightarrow> d1 = d"
  by (auto simp: ensure_import_board_def Let_def split: option.splits)

lemma main_dry:
  assumes "dry_run a"
  shows "catalog (snd (main a e d f)) = d \<and> disk (snd (main a e d f)) = f"
proof -
  obtain bid d1 o1 where b: "ensure_import_board e d (dry_run a) (verbose a) = (bid, d1, o1)"
    by (cases "ensure_import_board e d (dry_run a) (verbose a)") auto
  have d1: "d1 = d"
    using b assms ensure_import_board_dry by simp
  obtain ex w where run:
    "process_files a e bid \<lparr>catalog = d1, disk = f, printed = o1\<rparr> (png_files e) = (ex, w)"
    by (cases "process_files a e bid \<lparr>catalog = d1, disk = f, printed = o1\<rparr> (png_files e)") auto
  from process_files_dry [OF assms run] have "catalog w = d" "disk w = f"
    using d1 by simp_all
  then show ?thesis
    using b run by (cases ex) (simp_all add: main_def)
qed

text \<open>Without \<^verbatim>\<open>--verbose\<close> a dry run announces the inserts only.\<close>

lemma ensure_thumbnail_quiet:
  "ensure_thumbnail e f root p True False img = (ex, f1, o1) \<Longrightarrow> o1 = []"
  by (auto simp: ensure_thumbnail_def split: sum.splits if_splits)

lemma process_file_quiet:
  assumes "dry_run a" and "\<not> verbose a" and "process_file a e bid w p = (ex, w')"
  shows "dry_boards (printed w') = dry_boards (printed w) \<and>
         dry_links (printed w') = dry_links (printed w) \<and>
         dry_thumbs (printed w') = dry_thumbs (printed w)"
  using assms
  by (auto simp: process_file_def insert_image_def add_to_board_def Let_def dry_lists
      split: sum.splits prod.splits if_splits option.splits dest: ensure_thumbnail_quiet)

lemma process_files_quiet:
  assumes "dry_run a" and "\<not> verbose a" and "process_files a e bid w ps = (ex, w')"
  shows "dry_boards (printed w') = dry_boards (printed w) \<and>
         dry_links (printed w') = dry_links (printed w) \<and>
         dry_thumbs (printed w') = dry_thumbs (printed w)"
  using assms(3)
proof (induction ps arbitrary: w)
  case Nil
  then show ?case by simp
next
  case (Cons p ps)
  obtain ex1 w1 where step: "process_file a e bid w p = (ex1, w1)"
    by (cases "process_file a e bid w p") auto
  note s = process_file_quiet [OF assms(1,2) step]
  show ?case
  proof (cases ex1)
    case (Some x)
    then have "w' = w1" using Cons.prems step by simp
    then show ?thesis using s by simp
  next
    case None
    then have "process_files a e bid w1 ps = (ex, w')"
      using Cons.prems step by simp
    from Cons.IH [OF this] s show ?thesis by simp
  qed
qed

lemma main_quiet:
  assumes "dry_run a" and "\<not> verbose a"
  shows "dry_boards (printed (snd (main a e d f))) = [] \<and>
         dry_links (printed (snd (main a e d f))) = [] \<and>
         dry_thumbs (printed (snd (main a e d f))) = []"
proof -
  obtain bid d1 o1 where b: "ensure_import_board e d (dry_run a) (verbose a) = (bid, d1, o1)"
    by (cases "ensure_import_board e d (dry_run a) (verbose a)") auto
  have o1: "o1 = []"
    using b assms by (auto simp: ensure_import_board_def Let_def split: option.splits)
  obtain ex w where run:
    "process_files a e bid \<lparr>catalog = d1, disk = f, printed = o1\<rparr> (png_files e) = (ex, w)"
    by (cases "process_files a e bid \<lparr>catalog = d1, disk = f, printed = o1\<rparr> (png_files e)") auto
  from process_files_quiet [OF assms run] o1
  have "dry_boards (printed w) = [] \<and> dry_links (printed w) = [] \<and> dry_thumbs (printed w) = []"
    by (simp add: dry_lists)
  then show ?thesis
    using b run assms by (cases ex) (simp_all add: main_def)
qed

text \<open>In every run the disk and the output only grow.\<close>

lemma ensure_thumbnail_grows:
  "ensure_thumbnail e f root p dry verb img = (ex, f1, o1) \<Longrightarrow>
   files f \<subseteq> files f1 \<and> dirs f \<subseteq> dirs f1"
  by (auto simp: ensure_thumbnail_def mkdir_parents_def split: sum.splits if_splits option.splits)

lemma process_file_grows:
  assumes "process_file a e bid w p = (ex, w')"
  shows "files (disk w) \<subseteq> files (disk w') \<and> dirs (disk w) \<subseteq> dirs (disk w') \<and>
         (\<exists>out. printed w' = printed w @ out)"
  using assms
  by (auto simp: process_file_def Let_def
      split: sum.splits prod.splits if_splits option.splits dest!: ensure_thumbnail_grows)

lemma process_files_grows:
  assumes "process_files a e bid w ps = (ex, w')"
  shows "files (disk w) \<subseteq> files (disk w') \<and> dirs (disk w) \<subseteq> dirs (disk w') \<and>
         (\<exists>out. printed w' = printed w @ out)"
  using assms
proof (induction ps arbitrary: w)
  case Nil
  then show ?case by simp
next
  case (Cons p ps)
  obtain ex1 w1 where step: "process_file a e bid w p = (ex1, w1)"
    by (cases "process_file a e bid w p") auto
  note s = process_file_grows [OF step]
  show ?case
  proof (cases ex1)
    case (Some x)
    then have "w' = w1" using Cons.prems step by simp
    then show ?thesis using s by simp
  next
    case None
    then have "process_files a e bid w1 ps = (ex, w')"
      using Cons.prems step by simp
    from Cons.IH [OF this] s show ?thesis by auto
  qed
qed

text \<open>
  A verbose dry run and the real run, file by file: as long as the real run meets no
  failure they take the same branch, and what the dry run announces is what the real run
  adds.
\<close>

lemma thumbnail_path_of_globbed:
  assumes "relative_to p (root @ [''images'']) = Inr rel"
  shows "\<exists>t. get_thumbnail_path root p = Inr t"
proof -
  have p: "p = root @ ''images'' # rel"
    using assms
    by (auto simp: relative_to_def split: if_splits)
       (metis append_take_drop_id append.assoc append_Cons append_Nil)
  have "relative_to p root = Inr (''images'' # rel)"
    unfolding p by (simp add: relative_to_def is_absolute_def)
  then show ?thesis
    by (simp add: get_thumbnail_path_def list_insert_def)
qed

lemma image_exists_snoc:
  "images d1 = images d @ rows \<Longrightarrow>
   image_exists d1 n \<longleftrightarrow> image_exists d n \<or> n \<in> image_name ` set rows"
  by (auto simp: image_exists_def list_ex_iff)

lemma step_lockstep:
  assumes dv: "dry_run aD" "verbose aD"
    and real: "process_file (aD\<lparr>dry_run := False\<rparr>) e bid wR p = (None, wR')"
    and dry: "process_file aD e bid wD p = (exD, wD')"
    and noerr: "\<forall>n. ErrInsert n \<notin> set (printed wR')"
    and same: "image_exists (catalog wR) (file_name aD p) = image_exists (catalog wD) (file_name aD p)"
    and ref: "\<forall>l \<in> set (board_images (catalog wR)). image_exists (catalog wR) (snd l)"
    and sub: "files (disk wD) \<subseteq> files (disk wR)" "dirs (disk wD) \<subseteq> dirs (disk wR)"
    and nodir: "\<forall>t \<in> set (dry_thumbs (printed wD')). t \<notin> dirs (disk wR)"
  shows "exD = None \<and>
         (\<exists>oD rows.
            printed wD' = printed wD @ oD \<and>
            images (catalog wR') = images (catalog wR) @ rows \<and>
            map row_summary rows = dry_inserts oD \<and>
            (\<forall>r \<in> set rows. image_name r = file_name aD p) \<and>
            boards (catalog wR') = boards (catalog wR) \<and>
            board_images (catalog wR') = board_images (catalog wR) @ dry_links oD \<and>
            (\<forall>l \<in> set (dry_links oD). l \<notin> set (board_images (catalog wR))) \<and>
            (\<forall>l \<in> set (board_images (catalog wR')). image_exists (catalog wR') (snd l)) \<and>
            files (disk wR') = files (disk wR) \<union> set (dry_thumbs oD) \<and>
            (\<forall>t \<in> set (dry_thumbs oD). \<not> path_exists (disk wD) t) \<and>
            dry_boards oD = [])"
proof (cases "relative_to p (outputs_root aD @ [''images''])")
  case (Inl x)
  then show ?thesis using real by (simp add: process_file_def)
next
  case (Inr rel)
  have name: "file_name aD p = path_str rel"
    using Inr by (simp add: file_name_def)
  show ?thesis
  proof (cases "image_exists (catalog wD) (path_str rel)")
    case True
    then have "image_exists (catalog wR) (path_str rel)"
      using same name by simp
    then have r: "wR' = wR\<lparr>printed := printed wR @ [Skip (path_str rel)]\<rparr>"
      using real Inr dv by (simp add: process_file_def)
    have d: "exD = None" "wD' = wD\<lparr>printed := printed wD @ [Skip (path_str rel)]\<rparr>"
      using dry Inr True dv by (simp_all add: process_file_def)
    show ?thesis
      using r d ref
      by (intro conjI exI [of _ "[Skip (path_str rel)]"] exI [of _ "[]"])
         (simp_all add: dry_lists)
  next
    case False
    then have nexR: "\<not> image_exists (catalog wR) (path_str rel)"
      using same name by simp
    show ?thesis
    proof (cases "load_png_metadata e p")
      case (Inl x)
      then have r: "wR' = wR\<lparr>printed := printed wR @ [ErrRead p]\<rparr>"
        using real Inr nexR by (simp add: process_file_def)
      have d: "exD = None" "wD' = wD\<lparr>printed := printed wD @ [ErrRead p]\<rparr>"
        using dry Inr False Inl by (simp_all add: process_file_def)
      show ?thesis
        using r d ref
        by (intro conjI exI [of _ "[ErrRead p]"] exI [of _ "[]"]) (simp_all add: dry_lists)
    next
      case loaded: (Inr tup)
      obtain img meta_raw meta_json graph_raw has_graph
        where tup: "tup = (img, meta_raw, meta_json, graph_raw, has_graph)"
        by (cases tup) auto
      show ?thesis
      proof (cases "detect_created_at meta_json (mtime_of e p)")
        case (Inl x)
        then show ?thesis
          using real Inr nexR loaded tup by (simp add: process_file_def)
      next
        case created: (Inr created)
        let ?n = "path_str rel"
        let ?row = "\<lparr>image_name = ?n, image_origin = ''internal'', image_category = ''general'',
                     width = fst (img_size img), height = snd (img_size img),
                     metadata = meta_raw, is_intermediate = 0,
                     created_at = created, updated_at = created,
                     has_workflow = (if has_graph then 1 else 0), other_columns = []\<rparr>"
        have nofail: "\<not> insert_fails e ?n"
        proof
          assume "insert_fails e ?n"
          then have "ErrInsert ?n \<in> set (printed wR')"
            using real Inr nexR loaded tup created
            by (auto simp: process_file_def insert_image_def Let_def)
          then show False using noerr by blast
        qed
        have nolfail: "\<not> link_fails e ?n"
        proof
          assume "link_fails e ?n"
          then have "ErrInsert ?n \<in> set (printed wR')"
            using real Inr nexR loaded tup created nofail
            by (auto simp: process_file_def insert_image_def add_to_board_def Let_def)
          then show False using noerr by blast
        qed
        have newlink: "(bid, ?n) \<notin> set (board_images (catalog wR))"
          using ref nexR by force
        let ?d1 = "(catalog wR)\<lparr>images := images (catalog wR) @ [?row]\<rparr>"
        let ?d2 = "?d1\<lparr>board_images := board_images (catalog wR) @ [(bid, ?n)]\<rparr>"
        have ins: "insert_image e (catalog wR) ?n img meta_raw has_graph created False True =
                   (None, ?d1, [Inserted ?n])"
          using nofail by (simp add: insert_image_def Let_def)
        have lnk: "add_to_board e ?d1 bid ?n False True = (None, ?d2, [Linked ?n bid])"
          using nolfail newlink by (simp add: add_to_board_def)
        have insD: "insert_image e (catalog wD) ?n img meta_raw has_graph created True True =
                   (None, catalog wD, [DryInsert ?n ''general'' ''internal'' 0 (if has_graph then 1 else 0)])"
          by (simp add: insert_image_def Let_def)
        have lnkD: "add_to_board e (catalog wD) bid ?n True True = (None, catalog wD, [DryLink ?n bid])"
          by (simp add: add_to_board_def)
        let ?pre = "[FileLine p ?n, DryInsert ?n ''general'' ''internal'' 0 (if has_graph then 1 else 0),
                     DryLink ?n bid]"
        have ref2: "\<forall>l \<in> set (board_images ?d2). image_exists ?d2 (snd l)"
          using ref by (auto simp: image_exists_def list_ex_iff)
        show ?thesis
        proof (cases "gen_thumbs aD")
          case False
          have r: "wR' = wR\<lparr>catalog := ?d2,
                      printed := printed wR @ [FileLine p ?n, Inserted ?n, Linked ?n bid]\<rparr>"
            using real Inr nexR loaded tup created ins lnk dv False
            by (simp add: process_file_def Let_def)
          have d: "exD = None" "wD' = wD\<lparr>printed := printed wD @ ?pre\<rparr>"
            using dry Inr \<open>\<not> image_exists (catalog wD) ?n\<close> loaded tup created insD lnkD dv False
            by (simp_all add: process_file_def Let_def)
          show ?thesis
            using r d ref2 newlink name
            by (intro conjI exI [of _ ?pre] exI [of _ "[?row]"])
               (simp_all add: dry_lists row_summary_def)
        next
          case True
          obtain t where t: "get_thumbnail_path (outputs_root aD) p = Inr t"
            using thumbnail_path_of_globbed [OF Inr] by blast
          show ?thesis
          proof (cases "path_exists (disk wD) t")
            case pe: True
            then have peR: "path_exists (disk wR) t"
              using sub by (auto simp: path_exists_def)
            have r: "wR' = wR\<lparr>catalog := ?d2,
                      printed := printed wR @ [FileLine p ?n, Inserted ?n, Linked ?n bid]\<rparr>"
              using real Inr nexR loaded tup created ins lnk dv True t peR
              by (simp add: process_file_def Let_def ensure_thumbnail_def)
            have d: "exD = None" "wD' = wD\<lparr>printed := printed wD @ ?pre\<rparr>"
              using dry Inr \<open>\<not> image_exists (catalog wD) ?n\<close> loaded tup created insD lnkD dv True t pe
              by (simp_all add: process_file_def Let_def ensure_thumbnail_def)
            show ?thesis
              using r d ref2 newlink name
              by (intro conjI exI [of _ ?pre] exI [of _ "[?row]"])
                 (simp_all add: dry_lists row_summary_def)
          next
            case npe: False
            have d: "exD = None" "wD' = wD\<lparr>printed := printed wD @ ?pre @ [DryThumb t]\<rparr>"
              using dry Inr \<open>\<not> image_exists (catalog wD) ?n\<close> loaded tup created insD lnkD dv True t npe
              by (simp_all add: process_file_def Let_def ensure_thumbnail_def)
            have tdir: "t \<notin> dirs (disk wR)"
              using nodir d by (simp add: dry_lists)
            have files: "files (disk wR') = insert t (files (disk wR))"
              and cat: "catalog wR' = ?d2"
              using real Inr nexR loaded tup created ins lnk dv True t tdir
              by (auto simp: process_file_def Let_def ensure_thumbnail_def path_exists_def
                  mkdir_parents_def split: if_splits sum.splits)
            show ?thesis
              using d files cat ref2 newlink name npe
              by (intro conjI exI [of _ "?pre @ [DryThumb t]"] exI [of _ "[?row]"])
                 (simp_all add: dry_lists row_summary_def)
          qed
        qed
      qed
    qed
  qed
qed

lemma loop_lockstep:
  assumes dv: "dry_run aD" "verbose aD"
    and real: "process_files (aD\<lparr>dry_run := False\<rparr>) e bid wR ps = (None, wR')"
    and dry: "process_files aD e bid wD ps = (exD, wD')"
    and noerr: "\<forall>n. ErrInsert n \<notin> set (printed wR')"
    and dist: "distinct (map (file_name aD) ps)"
    and same: "\<forall>p \<in> set ps. image_exists (catalog wR) (file_name aD p) =
                               image_exists (catalog wD) (file_name aD p)"
    and ref: "\<forall>l \<in> set (board_images (catalog wR)). image_exists (catalog wR) (snd l)"
    and sub: "files (disk wD) \<subseteq> files (disk wR)" "dirs (disk wD) \<subseteq> dirs (disk wR)"
    and nodir: "\<forall>t \<in> set (dry_thumbs (printed wD')). t \<notin> dirs (disk wR')"
  shows "exD = None \<and>
         (\<exists>oD rows.
            printed wD' = printed wD @ oD \<and>
            images (catalog wR') = images (catalog wR) @ rows \<and>
            map row_summary rows = dry_inserts oD \<and>
            boards (catalog wR') = boards (catalog wR) \<and>
            board_images (catalog wR') = board_images (catalog wR) @ dry_links oD \<and>
            (\<forall>l \<in> set (dry_links oD). l \<notin> set (board_images (catalog wR))) \<and>
            files (disk wR') = files (disk wR) \<union> set (dry_thumbs oD) \<and>
            (\<forall>t \<in> set (dry_thumbs oD). \<not> path_exists (disk wD) t) \<and>
            dry_boards oD = [])"
  using real dry dist same ref sub
proof (induction ps arbitrary: wR wD)
  case Nil
  then show ?case
    by (intro conjI exI [of _ "[]"]) (simp_all add: dry_lists)
next
  case (Cons p ps)
  obtain exR1 wR1 where stepR: "process_file (aD\<lparr>dry_run := False\<rparr>) e bid wR p = (exR1, wR1)"
    by (cases "process_file (aD\<lparr>dry_run := False\<rparr>) e bid wR p") auto
  have exR1: "exR1 = None"
    using Cons.prems(1) stepR by (cases exR1) simp_all
  have restR: "process_files (aD\<lparr>dry_run := False\<rparr>) e bid wR1 ps = (None, wR')"
    using Cons.prems(1) stepR exR1 by simp
  obtain exD1 wD1 where stepD: "process_file aD e bid wD p = (exD1, wD1)"
    by (cases "process_file aD e bid wD p") auto
  have tailD: "\<exists>out. printed wD' = printed wD1 @ out"
  proof (cases exD1)
    case None
    then have "process_files aD e bid wD1 ps = (exD, wD')"
      using Cons.prems(2) stepD by simp
    then show ?thesis using process_files_grows by blast
  next
    case (Some x)
    then have "wD' = wD1" using Cons.prems(2) stepD by simp
    then show ?thesis by simp
  qed
  note growR = process_files_grows [OF restR]
  note growR1 = process_file_grows [OF stepR]
  have noerr1: "\<forall>n. ErrInsert n \<notin> set (printed wR1)"
    using noerr growR by auto
  have nodir1: "\<forall>t \<in> set (dry_thumbs (printed wD1)). t \<notin> dirs (disk wR)"
  proof
    fix t assume "t \<in> set (dry_thumbs (printed wD1))"
    then have "t \<in> set (dry_thumbs (printed wD'))"
      using tailD by (auto simp: dry_lists)
    then have "t \<notin> dirs (disk wR')"
      using nodir by blast
    then show "t \<notin> dirs (disk wR)"
      using growR growR1 by blast
  qed
  have same1: "image_exists (catalog wR) (file_name aD p) = image_exists (catalog wD) (file_name aD p)"
    using Cons.prems(4) by simp
  from step_lockstep [OF dv stepR [unfolded exR1] stepD noerr1 same1 Cons.prems(5,6,7) nodir1]
  obtain oD1 rows1 where s:
    "exD1 = None"
    "printed wD1 = printed wD @ oD1"
    "images (catalog wR1) = images (catalog wR) @ rows1"
    "map row_summary rows1 = dry_inserts oD1"
    "\<forall>r \<in> set rows1. image_name r = file_name aD p"
    "boards (catalog wR1) = boards (catalog wR)"
    "board_images (catalog wR1) = board_images (catalog wR) @ dry_links oD1"
    "\<forall>l \<in> set (dry_links oD1). l \<notin> set (board_images (catalog wR))"
    "\<forall>l \<in> set (board_images (catalog wR1)). image_exists (catalog wR1) (snd l)"
    "files (disk wR1) = files (disk wR) \<union> set (dry_thumbs oD1)"
    "\<forall>t \<in> set (dry_thumbs oD1). \<not> path_exists (disk wD) t"
    "dry_boards oD1 = []"
    by blast
  have restD: "process_files aD e bid wD1 ps = (exD, wD')"
    using Cons.prems(2) stepD s(1) by simp
  note dryD = process_file_dry [OF dv(1) stepD]
  have dist': "distinct (map (file_name aD) ps)"
    using Cons.prems(3) by simp
  have same': "\<forall>q \<in> set ps. image_exists (catalog wR1) (file_name aD q) =
                               image_exists (catalog wD1) (file_name aD q)"
  proof
    fix q assume q: "q \<in> set ps"
    have ne: "file_name aD q \<noteq> file_name aD p"
      using Cons.prems(3) q by (auto simp: image_iff)
    have "image_exists (catalog wR1) (file_name aD q) = image_exists (catalog wR) (file_name aD q)"
      using image_exists_snoc [OF s(3)] s(5) ne by auto
    then show "image_exists (catalog wR1) (file_name aD q) = image_exists (catalog wD1) (file_name aD q)"
      using Cons.prems(4) q dryD by simp
  qed
  have sub': "files (disk wD1) \<subseteq> files (disk wR1)" "dirs (disk wD1) \<subseteq> dirs (disk wR1)"
    using Cons.prems(6,7) dryD growR1 by auto
  from Cons.IH [OF restR restD dist' same' s(9) sub']
  obtain oD2 rows2 where r:
    "exD = None"
    "printed wD' = printed wD1 @ oD2"
    "images (catalog wR') = images (catalog wR1) @ rows2"
    "map row_summary rows2 = dry_inserts oD2"
    "boards (catalog wR') = boards (catalog wR1)"
    "board_images (catalog wR') = board_images (catalog wR1) @ dry_links oD2"
    "\<forall>l \<in> set (dry_links oD2). l \<notin> set (board_images (catalog wR1))"
    "files (disk wR') = files (disk wR1) \<union> set (dry_thumbs oD2)"
    "\<forall>t \<in> set (dry_thumbs oD2). \<not> path_exists (disk wD1) t"
    "dry_boards oD2 = []"
    by blast
  show ?case
    using s r dryD
    by (intro conjI exI [of _ "oD1 @ oD2"] exI [of _ "rows1 @ rows2"])
       (auto simp: dry_lists)
qed

lemma board_lockstep:
  assumes "ensure_import_board e d False verb = (bid, d1, oR)"
  shows "\<exists>oD. ensure_import_board e d True True = (bid, d, oD) \<and>
              images d1 = images d \<and> board_images d1 = board_images d \<and>
              boards d1 = boards d @ dry_boards oD \<and>
              (\<forall>b \<in> set (dry_boards oD). b \<notin> set (boards d)) \<and>
              dry_inserts oD = [] \<and> dry_links oD = [] \<and> dry_thumbs oD = []"
proof (cases "List.find (\<lambda>(bid, n). n = ''Recovered '' @ today e) (boards d)")
  case None
  then have "(uuid4 e, ''Recovered '' @ today e) \<notin> set (boards d)"
    by (auto simp: find_None_iff)
  then show ?thesis
    using assms None
    by (auto simp: ensure_import_board_def Let_def dry_lists)
next
  case (Some row)
  then show ?thesis
    using assms
    by (cases row) (auto simp: ensure_import_board_def Let_def dry_lists)
qed

lemma dry_run_matches_real:
  assumes dv: "dry_run a" "verbose a"
    and fin: "fst (main (a\<lparr>dry_run := False\<rparr>) e d f) = None"
    and noerr: "\<forall>n. ErrInsert n \<notin> set (printed (snd (main (a\<lparr>dry_run := False\<rparr>) e d f)))"
    and dist: "distinct (map (file_name a) (png_files e))"
    and ref: "\<forall>l \<in> set (board_images d). image_exists d (snd l)"
    and nodir: "\<forall>t \<in> set (dry_thumbs (printed (snd (main a e d f)))).
                  t \<notin> dirs (disk (snd (main (a\<lparr>dry_run := False\<rparr>) e d f)))"
  shows "set (dry_inserts (printed (snd (main a e d f)))) =
           row_summary ` (set (images (catalog (snd (main (a\<lparr>dry_run := False\<rparr>) e d f)))) - set (images d))
       \<and> set (dry_boards (printed (snd (main a e d f)))) =
           set (boards (catalog (snd (main (a\<lparr>dry_run := False\<rparr>) e d f)))) - set (boards d)
       \<and> set (dry_links (printed (snd (main a e d f)))) =
           set (board_images (catalog (snd (main (a\<lparr>dry_run := False\<rparr>) e d f)))) - set (board_images d)
       \<and> set (dry_thumbs (printed (snd (main a e d f)))) =
           files (disk (snd (main (a\<lparr>dry_run := False\<rparr>) e d f))) - files f"
proof -
  let ?aR = "a\<lparr>dry_run := False\<rparr>"
  obtain bid d1 oR where bR: "ensure_import_board e d False (verbose a) = (bid, d1, oR)"
    by (cases "ensure_import_board e d False (verbose a)") auto
  from board_lockstep [OF bR] obtain o1 where b:
    "ensure_import_board e d True True = (bid, d, o1)"
    "images d1 = images d" "board_images d1 = board_images d"
    "boards d1 = boards d @ dry_boards o1"
    "\<forall>b \<in> set (dry_boards o1). b \<notin> set (boards d)"
    "dry_inserts o1 = []" "dry_links o1 = []" "dry_thumbs o1 = []"
    by blast
  let ?wR = "\<lparr>catalog = d1, disk = f, printed = oR\<rparr>"
  let ?wD = "\<lparr>catalog = d, disk = f, printed = o1\<rparr>"
  obtain exR wR' where runR: "process_files ?aR e bid ?wR (png_files e) = (exR, wR')"
    by (cases "process_files ?aR e bid ?wR (png_files e)") auto
  obtain exD wD' where runD: "process_files a e bid ?wD (png_files e) = (exD, wD')"
    by (cases "process_files a e bid ?wD (png_files e)") auto
  have exR: "exR = None"
    using fin bR runR by (cases exR) (simp_all add: main_def)
  have mR: "main ?aR e d f = (None, wR'\<lparr>printed := printed wR' @ [Done]\<rparr>)"
    using bR runR exR by (simp add: main_def)
  have thD: "dry_thumbs (printed (snd (main a e d f))) = dry_thumbs (printed wD')"
    and insD: "dry_inserts (printed (snd (main a e d f))) = dry_inserts (printed wD')"
    and lnkD: "dry_links (printed (snd (main a e d f))) = dry_links (printed wD')"
    and brdD: "dry_boards (printed (snd (main a e d f))) = dry_boards (printed wD')"
    using b(1) runD dv by (cases exD; simp add: main_def dry_lists)+
  have noerr': "\<forall>n. ErrInsert n \<notin> set (printed wR')"
    using noerr mR by simp
  have nodir': "\<forall>t \<in> set (dry_thumbs (printed wD')). t \<notin> dirs (disk wR')"
    using nodir mR thD by simp
  have ex: "image_exists d1 n = image_exists d n" for n
    using b(2) by (simp add: image_exists_def)
  have same: "\<forall>p \<in> set (png_files e). image_exists (catalog ?wR) (file_name a p) =
                               image_exists (catalog ?wD) (file_name a p)"
    using ex by simp
  have ref': "\<forall>l \<in> set (board_images (catalog ?wR)). image_exists (catalog ?wR) (snd l)"
    using ref b(3) ex by simp
  from loop_lockstep [OF dv runR [unfolded exR] runD noerr' dist same ref' _ _ nodir']
  obtain oD rows where r:
    "printed wD' = printed ?wD @ oD"
    "images (catalog wR') = images (catalog ?wR) @ rows"
    "map row_summary rows = dry_inserts oD"
    "boards (catalog wR') = boards (catalog ?wR)"
    "board_images (catalog wR') = board_images (catalog ?wR) @ dry_links oD"
    "\<forall>l \<in> set (dry_links oD). l \<notin> set (board_images (catalog ?wR))"
    "files (disk wR') = files (disk ?wR) \<union> set (dry_thumbs oD)"
    "\<forall>t \<in> set (dry_thumbs oD). \<not> path_exists (disk ?wD) t"
    "dry_boards oD = []"
    by auto
  from process_files_appends [OF runR] obtain rows' where
    "images (catalog wR') = images (catalog ?wR) @ rows'"
    "\<forall>r \<in> set rows'. \<not> image_exists (catalog ?wR) (image_name r)"
    by blast
  then have new: "\<forall>r \<in> set rows. \<not> image_exists d (image_name r)"
    using r(2) ex by simp
  have disj: "set rows \<inter> set (images d) = {}"
    using new by (auto simp: image_exists_def list_ex_iff)
  have 1: "set (dry_inserts (printed wD')) = row_summary ` (set (images (catalog wR')) - set (images d))"
  proof -
    have "set (images (catalog wR')) - set (images d) = set rows"
      using r(2) b(2) disj by auto
    moreover have "set (dry_inserts (printed wD')) = row_summary ` set rows"
      using r(1,3) b(6) by (simp add: dry_lists flip: set_map)
    ultimately show ?thesis by simp
  qed
  have 2: "set (dry_boards (printed wD')) = set (boards (catalog wR')) - set (boards d)"
    using r(1,4,9) b(4,5) by (auto simp: dry_lists)
  have 3: "set (dry_links (printed wD')) = set (board_images (catalog wR')) - set (board_images d)"
    using r(1,5,6) b(3,7) by (auto simp: dry_lists)
  have 4: "set (dry_thumbs (printed wD')) = files (disk wR') - files f"
    using r(1,7,8) b(8) by (auto simp: dry_lists path_exists_def)
  show ?thesis
    using 1 2 3 4 by (simp add: mR thD insD lnkD brdD)
qed

text \<open>
  The inserts alone: a dry run of either verbosity announces the rows the real run adds.
\<close>

lemma ensure_thumbnail_dry_out:
  "ensure_thumbnail e f root p True verb img = (ex, f1, o1) \<Longrightarrow> dry_inserts o1 = []"
  by (auto simp: ensure_thumbnail_def dry_lists split: sum.splits if_splits)

lemma ensure_thumbnail_dry_ok:
  "get_thumbnail_path root p = Inr t \<Longrightarrow>
   fst (ensure_thumbnail e f root p True verb img) = None"
  by (simp add: ensure_thumbnail_def)

lemma step_inserts:
  assumes d: "dry_run aD"
    and real: "process_file (aD\<lparr>dry_run := False\<rparr>) e bid wR p = (None, wR')"
    and dry: "process_file aD e bid wD p = (exD, wD')"
    and noerr: "\<forall>n. ErrInsert n \<notin> set (printed wR')"
    and same: "image_exists (catalog wR) (file_name aD p) = image_exists (catalog wD) (file_name aD p)"
  shows "exD = None \<and>
         (\<exists>oD rows.
            printed wD' = printed wD @ oD \<and>
            images (catalog wR') = images (catalog wR) @ rows \<and>
            map row_summary rows = dry_inserts oD \<and>
            (\<forall>r \<in> set rows. image_name r = file_name aD p))"
proof (cases "relative_to p (outputs_root aD @ [''images''])")
  case (Inl x)
  then show ?thesis using real by (simp add: process_file_def)
next
  case (Inr rel)
  have name: "file_name aD p = path_str rel"
    using Inr by (simp add: file_name_def)
  show ?thesis
  proof (cases "image_exists (catalog wD) (path_str rel)")
    case True
    then have "image_exists (catalog wR) (path_str rel)"
      using same name by simp
    then have r: "catalog wR' = catalog wR"
      using real Inr by (auto simp: process_file_def)
    have dd: "exD = None"
      "wD' = wD\<lparr>printed := printed wD @ (if verbose aD then [Skip (path_str rel)] else [])\<rparr>"
      using dry Inr True by (simp_all add: process_file_def)
    show ?thesis
      using r dd
      by (intro conjI exI [of _ "if verbose aD then [Skip (path_str rel)] else []"] exI [of _ "[]"])
         (simp_all add: dry_lists)
  next
    case False
    then have nexR: "\<not> image_exists (catalog wR) (path_str rel)"
      using same name by simp
    show ?thesis
    proof (cases "load_png_metadata e p")
      case (Inl x)
      then have r: "catalog wR' = catalog wR"
        using real Inr nexR by (auto simp: process_file_def)
      have dd: "exD = None" "wD' = wD\<lparr>printed := printed wD @ [ErrRead p]\<rparr>"
        using dry Inr False Inl by (simp_all add: process_file_def)
      show ?thesis
        using r dd
        by (intro conjI exI [of _ "[ErrRead p]"] exI [of _ "[]"]) (simp_all add: dry_lists)
    next
      case loaded: (Inr tup)
      obtain img meta_raw meta_json graph_raw has_graph
        where tup: "tup = (img, meta_raw, meta_json, graph_raw, has_graph)"
        by (cases tup) auto
      show ?thesis
      proof (cases "detect_created_at meta_json (mtime_of e p)")
        case (Inl x)
        then show ?thesis
          using real Inr nexR loaded tup by (simp add: process_file_def)
      next
        case created: (Inr created)
        let ?n = "path_str rel"
        let ?row = "\<lparr>image_name = ?n, image_origin = ''internal'', image_category = ''general'',
                     width = fst (img_size img), height = snd (img_size img),
                     metadata = meta_raw, is_intermediate = 0,
                     created_at = created, updated_at = created,
                     has_workflow = (if has_graph then 1 else 0), other_columns = []\<rparr>"
        have nofail: "\<not> insert_fails e ?n"
        proof
          assume "insert_fails e ?n"
          then have "ErrInsert ?n \<in> set (printed wR')"
            using real Inr nexR loaded tup created
            by (auto simp: process_file_def insert_image_def Let_def)
          then show False using noerr by blast
        qed
        have cat: "images (catalog wR') = images (catalog wR) @ [?row]"
          using real Inr nexR loaded tup created nofail
          by (auto simp: process_file_def insert_image_def add_to_board_def Let_def
              split: if_splits prod.splits option.splits)
        obtain t where t: "get_thumbnail_path (outputs_root aD) p = Inr t"
          using thumbnail_path_of_globbed [OF Inr] by blast
        obtain f1 o3 where th:
          "ensure_thumbnail e (disk wD) (outputs_root aD) p True (verbose aD) (Some img) = (None, f1, o3)"
          using ensure_thumbnail_dry_ok [OF t, of e "disk wD" "verbose aD" "Some img"]
          by (cases "ensure_thumbnail e (disk wD) (outputs_root aD) p True (verbose aD) (Some img)") auto
        have o3: "dry_inserts o3 = []"
          using ensure_thumbnail_dry_out [OF th] .
        let ?oD = "(if verbose aD then [FileLine p ?n] else []) @
                   [DryInsert ?n ''general'' ''internal'' 0 (if has_graph then 1 else 0)] @
                   (if verbose aD then [DryLink ?n bid] else []) @
                   (if gen_thumbs aD then o3 else [])"
        have "exD = None \<and> printed wD' = printed wD @ ?oD"
          using d th Inr False loaded tup created dry
          by (cases "gen_thumbs aD")
             (auto simp: process_file_def insert_image_def add_to_board_def Let_def)
        then have dd: "exD = None" "printed wD' = printed wD @ ?oD"
          by simp_all
        show ?thesis
          using dd cat o3 name
          by (intro conjI exI [of _ ?oD] exI [of _ "[?row]"])
             (simp_all add: dry_lists row_summary_def)
      qed
    qed
  qed
qed

lemma loop_inserts:
  assumes d: "dry_run aD"
    and real: "process_files (aD\<lparr>dry_run := False\<rparr>) e bid wR ps = (None, wR')"
    and dry: "process_files aD e bid wD ps = (exD, wD')"
    and noerr: "\<forall>n. ErrInsert n \<notin> set (printed wR')"
    and dist: "distinct (map (file_name aD) ps)"
    and same: "\<forall>p \<in> set ps. image_exists (catalog wR) (file_name aD p) =
                               image_exists (catalog wD) (file_name aD p)"
  shows "exD = None \<and>
         (\<exists>oD rows.
            printed wD' = printed wD @ oD \<and>
            images (catalog wR') = images (catalog wR) @ rows \<and>
            map row_summary rows = dry_inserts oD)"
  using real dry dist same
proof (induction ps arbitrary: wR wD)
  case Nil
  then show ?case
    by (intro conjI exI [of _ "[]"]) (simp_all add: dry_lists)
next
  case (Cons p ps)
  obtain exR1 wR1 where stepR: "process_file (aD\<lparr>dry_run := False\<rparr>) e bid wR p = (exR1, wR1)"
    by (cases "process_file (aD\<lparr>dry_run := False\<rparr>) e bid wR p") auto
  have exR1: "exR1 = None"
    using Cons.prems(1) stepR by (cases exR1) simp_all
  have restR: "process_files (aD\<lparr>dry_run := False\<rparr>) e bid wR1 ps = (None, wR')"
    using Cons.prems(1) stepR exR1 by simp
  obtain exD1 wD1 where stepD: "process_file aD e bid wD p = (exD1, wD1)"
    by (cases "process_file aD e bid wD p") auto
  have noerr1: "\<forall>n. ErrInsert n \<notin> set (printed wR1)"
    using noerr process_files_grows [OF restR] by auto
  have same1: "image_exists (catalog wR) (file_name aD p) = image_exists (catalog wD) (file_name aD p)"
    using Cons.prems(4) by simp
  from step_inserts [OF d stepR [unfolded exR1] stepD noerr1 same1]
  obtain oD1 rows1 where s:
    "exD1 = None"
    "printed wD1 = printed wD @ oD1"
    "images (catalog wR1) = images (catalog wR) @ rows1"
    "map row_summary rows1 = dry_inserts oD1"
    "\<forall>r \<in> set rows1. image_name r = file_name aD p"
    by blast
  have restD: "process_files aD e bid wD1 ps = (exD, wD')"
    using Cons.prems(2) stepD s(1) by simp
  note dryD = process_file_dry [OF d stepD]
  have dist': "distinct (map (file_name aD) ps)"
    using Cons.prems(3) by simp
  have same': "\<forall>q \<in> set ps. image_exists (catalog wR1) (file_name aD q) =
                               image_exists (catalog wD1) (file_name aD q)"
  proof
    fix q assume q: "q \<in> set ps"
    have ne: "file_name aD q \<noteq> file_name aD p"
      using Cons.prems(3) q by (auto simp: image_iff)
    have "image_exists (catalog wR1) (file_name aD q) = image_exists (catalog wR) (file_name aD q)"
      using image_exists_snoc [OF s(3)] s(5) ne by auto
    then show "image_exists (catalog wR1) (file_name aD q) = image_exists (catalog wD1) (file_name aD q)"
      using Cons.prems(4) q dryD by simp
  qed
  from Cons.IH [OF restR restD dist' same']
  obtain oD2 rows2 where r:
    "exD = None"
    "printed wD' = printed wD1 @ oD2"
    "images (catalog wR') = images (catalog wR1) @ rows2"
    "map row_summary rows2 = dry_inserts oD2"
    by blast
  show ?case
    using s r
    by (intro conjI exI [of _ "oD1 @ oD2"] exI [of _ "rows1 @ rows2"]) (auto simp: dry_lists)
qed

lemma board_any:
  assumes "ensure_import_board e d False verb = (bid, d1, oR)"
  shows "\<exists>oD. ensure_import_board e d True verb' = (bid, d, oD) \<and>
              images d1 = images d \<and> dry_inserts oD = []"
  using assms
  by (auto simp: ensure_import_board_def Let_def dry_lists split: option.splits if_splits)

lemma dry_run_inserts_match:
  assumes d: "dry_run a"
    and fin: "fst (main (a\<lparr>dry_run := False\<rparr>) e d0 f) = None"
    and noerr: "\<forall>n. ErrInsert n \<notin> set (printed (snd (main (a\<lparr>dry_run := False\<rparr>) e d0 f)))"
    and dist: "distinct (map (file_name a) (png_files e))"
  shows "set (dry_inserts (printed (snd (main a e d0 f)))) =
           row_summary ` (set (images (catalog (snd (main (a\<lparr>dry_run := False\<rparr>) e d0 f)))) - set (images d0))"
proof -
  let ?aR = "a\<lparr>dry_run := False\<rparr>"
  obtain bid d1 oR where bR: "ensure_import_board e d0 False (verbose a) = (bid, d1, oR)"
    by (cases "ensure_import_board e d0 False (verbose a)") auto
  from board_any [OF bR, of "verbose a"] obtain o1 where b:
    "ensure_import_board e d0 True (verbose a) = (bid, d0, o1)"
    "images d1 = images d0" "dry_inserts o1 = []"
    by blast
  let ?wR = "\<lparr>catalog = d1, disk = f, printed = oR\<rparr>"
  let ?wD = "\<lparr>catalog = d0, disk = f, printed = o1\<rparr>"
  obtain exR wR' where runR: "process_files ?aR e bid ?wR (png_files e) = (exR, wR')"
    by (cases "process_files ?aR e bid ?wR (png_files e)") auto
  obtain exD wD' where runD: "process_files a e bid ?wD (png_files e) = (exD, wD')"
    by (cases "process_files a e bid ?wD (png_files e)") auto
  have exR: "exR = None"
    using fin bR runR by (cases exR) (simp_all add: main_def)
  have mR: "main ?aR e d0 f = (None, wR'\<lparr>printed := printed wR' @ [Done]\<rparr>)"
    using bR runR exR by (simp add: main_def)
  have insD: "dry_inserts (printed (snd (main a e d0 f))) = dry_inserts (printed wD')"
    using b(1) runD d by (cases exD) (simp_all add: main_def dry_lists)
  have noerr': "\<forall>n. ErrInsert n \<notin> set (printed wR')"
    using noerr mR by simp
  have ex: "image_exists d1 n = image_exists d0 n" for n
    using b(2) by (simp add: image_exists_def)
  have same: "\<forall>p \<in> set (png_files e). image_exists (catalog ?wR) (file_name a p) =
                               image_exists (catalog ?wD) (file_name a p)"
    using ex by simp
  from loop_inserts [OF d runR [unfolded exR] runD noerr' dist same]
  obtain oD rows where r:
    "printed wD' = printed ?wD @ oD"
    "images (catalog wR') = images (catalog ?wR) @ rows"
    "map row_summary rows = dry_inserts oD"
    by auto
  from process_files_appends [OF runR] obtain rows' where
    "images (catalog wR') = images (catalog ?wR) @ rows'"
    "\<forall>r \<in> set rows'. \<not> image_exists (catalog ?wR) (image_name r)"
    by blast
  then have new: "\<forall>r \<in> set rows. \<not> image_exists d0 (image_name r)"
    using r(2) ex by simp
  have disj: "set rows \<inter> set (images d0) = {}"
    using new by (auto simp: image_exists_def list_ex_iff)
  have "set (images (catalog wR')) - set (images d0) = set rows"
    using r(2) b(2) disj by auto
  moreover have "set (dry_inserts (printed wD')) = row_summary ` set rows"
    using r(1,3) b(3) by (simp add: dry_lists flip: set_map)
  ultimately show ?thesis
    by (simp add: mR insD)
qed

text \<open>
  C3, as stated, fails without \<^verbatim>\<open>--verbose\<close>: the dry run over the two sample files prints
  the two inserts only, while the real run over the same state also creates the board
  and links both images to it.
\<close>

theorem dry_run_silent_about_links:
  "dry_run \<lparr>outputs_root = [''/'', ''out''], dry_run = True, verbose = False, gen_thumbs = False\<rparr>
   \<and> fst (main \<lparr>outputs_root = [''/'', ''out''], dry_run = False, verbose = False, gen_thumbs = False\<rparr>
        sample_env \<lparr>images = [], boards = [], board_images = []\<rparr> \<lparr>files = {}, dirs = {}\<rparr>) = None
   \<and> set (dry_links (printed (snd
        (main \<lparr>outputs_root = [''/'', ''out''], dry_run = True, verbose = False, gen_thumbs = False\<rparr>
           sample_env \<lparr>images = [], boards = [], board_images = []\<rparr> \<lparr>files = {}, dirs = {}\<rparr>)))) \<noteq>
       set (board_images (catalog (snd
        (main \<lparr>outputs_root = [''/'', ''out''], dry_run = False, verbose = False, gen_thumbs = False\<rparr>
           sample_env \<lparr>images = [], boards = [], board_images = []\<rparr> \<lparr>files = {}, dirs = {}\<rparr>))))
         - set (board_images \<lparr>images = [], boards = [], board_images = []\<rparr>)
   \<and> set (dry_boards (printed (snd
        (main \<lparr>outputs_root = [''/'', ''out''], dry_run = True, verbose = False, gen_thumbs = False\<rparr>
           sample_env \<lparr>images = [], boards = [], board_images = []\<rparr> \<lparr>files = {}, dirs = {}\<rparr>)))) \<noteq>
       set (boards (catalog (snd
        (main \<lparr>outputs_root = [''/'', ''out''], dry_run = False, verbose = False, gen_thumbs = False\<rparr>
           sample_env \<lparr>images = [], boards = [], board_images = []\<rparr> \<lparr>files = {}, dirs = {}\<rparr>))))
         - set (boards \<lparr>images = [], boards = [], board_images = []\<rparr>)"
proof -
  have dry: "main \<lparr>outputs_root = [''/'', ''out''], dry_run = True, verbose = False, gen_thumbs = False\<rparr>
           sample_env \<lparr>images = [], boards = [], board_images = []\<rparr> \<lparr>files = {}, dirs = {}\<rparr> =
      (None, \<lparr>catalog = \<lparr>images = [], boards = [], board_images = []\<rparr>,
              disk = \<lparr>files = {}, dirs = {}\<rparr>,
              printed = [DryInsert ''a.png'' ''general'' ''internal'' 0 0,
                         DryInsert ''b.png'' ''general'' ''internal'' 0 0]\<rparr>)"
    by (simp add: run_defs sample_env_def)
  have real: "board_images (catalog (snd
        (main \<lparr>outputs_root = [''/'', ''out''], dry_run = False, verbose = False, gen_thumbs = False\<rparr>
           sample_env \<lparr>images = [], boards = [], board_images = []\<rparr> \<lparr>files = {}, dirs = {}\<rparr>))) =
       [(''u1'', ''a.png''), (''u1'', ''b.png'')]
     \<and> boards (catalog (snd
        (main \<lparr>outputs_root = [''/'', ''out''], dry_run = False, verbose = False, gen_thumbs = False\<rparr>
           sample_env \<lparr>images = [], boards = [], board_images = []\<rparr> \<lparr>files = {}, dirs = {}\<rparr>))) =
       [(''u1'', ''Recovered 03-11-26'')]
     \<and> fst (main \<lparr>outputs_root = [''/'', ''out''], dry_run = False, verbose = False, gen_thumbs = False\<rparr>
           sample_env \<lparr>images = [], boards = [], board_images = []\<rparr> \<lparr>files = {}, dirs = {}\<rparr>) = None"
    by (simp add: run_defs sample_env_def)
  show ?thesis
    by (simp add: dry real dry_lists)
qed

text \<open>
  C3, amended. A dry run inserts no row into \<^verbatim>\<open>images\<close>, \<^verbatim>\<open>boards\<close> or \<^verbatim>\<open>board_images\<close> and
  creates no file or directory. With or without \<^verbatim>\<open>--verbose\<close>, and when the real run over
  the same initial state and the same inputs ends normally without a failed insert or
  link, the inserts it announces are exactly the rows the real run adds to \<^verbatim>\<open>images\<close>
  (for globbed files with pairwise distinct image names). Without \<^verbatim>\<open>--verbose\<close> it
  announces nothing else: no board creation, link or thumbnail. With \<^verbatim>\<open>--verbose\<close>, the
  announced board creation, links and thumbnails are also exactly the rows the real run
  adds to \<^verbatim>\<open>boards\<close> and \<^verbatim>\<open>board_images\<close> and the thumbnail files it writes; this for a
  catalog whose membership rows all name cataloged images, and announced thumbnail paths
  that are not directories of the real run.
\<close>

theorem dry_run_reports:
  "(dry_run a \<longrightarrow> catalog (snd (main a e d f)) = d \<and> disk (snd (main a e d f)) = f)
   \<and> (dry_run a \<and>
       fst (main (a\<lparr>dry_run := False\<rparr>) e d f) = None \<and>
       (\<forall>n. ErrInsert n \<notin> set (printed (snd (main (a\<lparr>dry_run := False\<rparr>) e d f)))) \<and>
       distinct (map (file_name a) (png_files e)) \<longrightarrow>
        set (dry_inserts (printed (snd (main a e d f)))) =
          row_summary ` (set (images (catalog (snd (main (a\<lparr>dry_run := False\<rparr>) e d f)))) - set (images d)))
   \<and> (dry_run a \<and> \<not> verbose a \<longrightarrow>
        dry_boards (printed (snd (main a e d f))) = [] \<and>
        dry_links (printed (snd (main a e d f))) = [] \<and>
        dry_thumbs (printed (snd (main a e d f))) = [])
   \<and> (dry_run a \<and> verbose a \<and>
       fst (main (a\<lparr>dry_run := False\<rparr>) e d f) = None \<and>
       (\<forall>n. ErrInsert n \<notin> set (printed (snd (main (a\<lparr>dry_run := False\<rparr>) e d f)))) \<and>
       distinct (map (file_name a) (png_files e)) \<and>
       (\<forall>l \<in> set (board_images d). image_exists d (snd l)) \<and>
       (\<forall>t \<in> set (dry_thumbs (printed (snd (main a e d f)))).
          t \<notin> dirs (disk (snd (main (a\<lparr>dry_run := False\<rparr>) e d f)))) \<longrightarrow>
        set (dry_inserts (printed (snd (main a e d f)))) =
          row_summary ` (set (images (catalog (snd (main (a\<lparr>dry_run := False\<rparr>) e d f)))) - set (images d)) \<and>
        set (dry_boards (printed (snd (main a e d f)))) =
          set (boards (catalog (snd (main (a\<lparr>dry_run := False\<rparr>) e d f)))) - set (boards d) \<and>
        set (dry_links (printed (snd (main a e d f)))) =
          set (board_images (catalog (snd (main (a\<lparr>dry_run := False\<rparr>) e d f)))) - set (board_images d) \<and>
        set (dry_thumbs (printed (snd (main a e d f)))) =
          files (disk (snd (main (a\<lparr>dry_run := False\<rparr>) e d f))) - files f)"
  using main_dry [of a e d f] main_quiet [of a e d f] dry_run_matches_real [of a e d f]
    dry_run_inserts_match [of a e d f]
  by blast

theorem dry_run_reports_witness:
  "set (dry_inserts (printed (snd
      (main \<lparr>outputs_root = [''/'', ''out''], dry_run = True, verbose = True, gen_thumbs = True\<rparr>
         sample_env
         \<lparr>images = [sample_row ''a.png'' ''general'' ''internal''], boards = [], board_images = []\<rparr>
         \<lparr>files = {}, dirs = {}\<rparr>)))) =
     row_summary ` (set (images (catalog (snd
      (main \<lparr>outputs_root = [''/'', ''out''], dry_run = False, verbose = True, gen_thumbs = True\<rparr>
         sample_env
         \<lparr>images = [sample_row ''a.png'' ''general'' ''internal''], boards = [], board_images = []\<rparr>
         \<lparr>files = {}, dirs = {}\<rparr>)))) - {sample_row ''a.png'' ''general'' ''internal''})
   \<and> set (dry_thumbs (printed (snd
      (main \<lparr>outputs_root = [''/'', ''out''], dry_run = True, verbose = True, gen_thumbs = True\<rparr>
         sample_env
         \<lparr>images = [sample_row ''a.png'' ''general'' ''internal''], boards = [], board_images = []\<rparr>
         \<lparr>files = {}, dirs = {}\<rparr>)))) =
     files (disk (snd
      (main \<lparr>outputs_root = [''/'', ''out''], dry_run = False, verbose = True, gen_thumbs = True\<rparr>
         sample_env
         \<lparr>images = [sample_row ''a.png'' ''general'' ''internal''], boards = [], board_images = []\<rparr>
         \<lparr>files = {}, dirs = {}\<rparr>)))
   \<and> dry_thumbs (printed (snd
      (main \<lparr>outputs_root = [''/'', ''out''], dry_run = True, verbose = True, gen_thumbs = True\<rparr>
         sample_env
         \<lparr>images = [sample_row ''a.png'' ''general'' ''internal''], boards = [], board_images = []\<rparr>
         \<lparr>files = {}, dirs = {}\<rparr>))) =
     [[''/'', ''out'', ''images'', ''thumbnails'', ''b.webp'']]
   \<and> set (dry_inserts (printed (snd
      (main \<lparr>outputs_root = [''/'', ''out''], dry_run = True, verbose = False, gen_thumbs = True\<rparr>
         sample_env
         \<lparr>images = [sample_row ''a.png'' ''general'' ''internal''], boards = [], board_images = []\<rparr>
         \<lparr>files = {}, dirs = {}\<rparr>)))) =
     row_summary ` (set (images (catalog (snd
      (main \<lparr>outputs_root = [''/'', ''out''], dry_run = False, verbose = False, gen_thumbs = True\<rparr>
         sample_env
         \<lparr>images = [sample_row ''a.png'' ''general'' ''internal''], boards = [], board_images = []\<rparr>
         \<lparr>files = {}, dirs = {}\<rparr>)))) - {sample_row ''a.png'' ''general'' ''internal''})
   \<and> dry_inserts (printed (snd
      (main \<lparr>outputs_root = [''/'', ''out''], dry_run = True, verbose = False, gen_thumbs = True\<rparr>
         sample_env
         \<lparr>images = [sample_row ''a.png'' ''general'' ''internal''], boards = [], board_images = []\<rparr>
         \<lparr>files = {}, dirs = {}\<rparr>))) =
     [(''b.png'', ''general'', ''internal'', 0, 0)]"
proof -
  let ?a = "\<lparr>outputs_root = [''/'', ''out''], dry_run = True, verbose = True, gen_thumbs = True\<rparr>"
  let ?q = "\<lparr>outputs_root = [''/'', ''out''], dry_run = True, verbose = False, gen_thumbs = True\<rparr>"
  let ?d = "\<lparr>images = [sample_row ''a.png'' ''general'' ''internal''], boards = [], board_images = []\<rparr>"
  let ?f = "\<lparr>files = {}, dirs = {}\<rparr>"
  have dry: "printed (snd (main ?a sample_env ?d ?f)) =
      [DryBoardCreate ''Recovered 03-11-26'' ''u1'', Skip ''a.png'',
       FileLine [''/'', ''out'', ''images'', ''b.png''] ''b.png'',
       DryInsert ''b.png'' ''general'' ''internal'' 0 0, DryLink ''b.png'' ''u1'',
       DryThumb [''/'', ''out'', ''images'', ''thumbnails'', ''b.webp''], Done]"
    by (simp add: run_defs sample_env_def sample_row_def)
  have quiet: "printed (snd (main ?q sample_env ?d ?f)) =
      [DryInsert ''b.png'' ''general'' ''internal'' 0 0]"
    by (simp add: run_defs sample_env_def sample_row_def)
  have real: "fst (main (?a\<lparr>dry_run := False\<rparr>) sample_env ?d ?f) = None
      \<and> printed (snd (main (?a\<lparr>dry_run := False\<rparr>) sample_env ?d ?f)) =
          [BoardCreated ''Recovered 03-11-26'' ''u1'', Skip ''a.png'',
           FileLine [''/'', ''out'', ''images'', ''b.png''] ''b.png'',
           Inserted ''b.png'', Linked ''b.png'' ''u1'',
           ThumbCreated [''/'', ''out'', ''images'', ''thumbnails'', ''b.webp''], Done]
      \<and> dirs (disk (snd (main (?a\<lparr>dry_run := False\<rparr>) sample_env ?d ?f))) =
          {[''/''], [''/'', ''out''], [''/'', ''out'', ''images''],
           [''/'', ''out'', ''images'', ''thumbnails'']}"
    by (simp add: run_defs sample_env_def sample_row_def insert_commute)
  have realq: "fst (main (?q\<lparr>dry_run := False\<rparr>) sample_env ?d ?f) = None
      \<and> printed (snd (main (?q\<lparr>dry_run := False\<rparr>) sample_env ?d ?f)) = [Done]"
    by (simp add: run_defs sample_env_def sample_row_def insert_commute)
  have names: "map (file_name ?a) (png_files sample_env) = [''a.png'', ''b.png'']"
    "map (file_name ?q) (png_files sample_env) = [''a.png'', ''b.png'']"
    by (simp_all add: file_name_def png_files_def sample_env_def relative_to_def path_str_def)
  have hyps: "dry_run ?a \<and> verbose ?a \<and>
       fst (main (?a\<lparr>dry_run := False\<rparr>) sample_env ?d ?f) = None \<and>
       (\<forall>n. ErrInsert n \<notin> set (printed (snd (main (?a\<lparr>dry_run := False\<rparr>) sample_env ?d ?f)))) \<and>
       distinct (map (file_name ?a) (png_files sample_env)) \<and>
       (\<forall>l \<in> set (board_images ?d). image_exists ?d (snd l)) \<and>
       (\<forall>t \<in> set (dry_thumbs (printed (snd (main ?a sample_env ?d ?f)))).
          t \<notin> dirs (disk (snd (main (?a\<lparr>dry_run := False\<rparr>) sample_env ?d ?f))))"
    using real by (simp add: dry names dry_lists)
  have hypsq: "dry_run ?q \<and>
       fst (main (?q\<lparr>dry_run := False\<rparr>) sample_env ?d ?f) = None \<and>
       (\<forall>n. ErrInsert n \<notin> set (printed (snd (main (?q\<lparr>dry_run := False\<rparr>) sample_env ?d ?f)))) \<and>
       distinct (map (file_name ?q) (png_files sample_env))"
    using realq by (simp add: names)
  from dry_run_reports [of ?a sample_env ?d ?f, THEN conjunct2, THEN conjunct2, THEN conjunct2,
         rule_format, OF hyps]
    dry_run_reports [of ?q sample_env ?d ?f, THEN conjunct2, THEN conjunct1, rule_format, OF hypsq]
  show ?thesis
    by (simp add: dry quiet dry_lists)
qed

end
